theory Spec2Isabelle
  imports Main "HOL-Library.Word"
begin

section \<open>Data model of the broker-connection core\<close>

type_synonym int32 = "32 word"
type_synonym int64 = "64 word"

text \<open>\<open>time.Duration\<close> is a signed 64-bit count of nanoseconds.\<close>

type_synonym duration = "64 word"

text \<open>The \<open>iota\<close> block of error numbers of the client file.\<close>

datatype errno =
    KhpErrorNoBrokers
  | KhpErrorReadTimeout
  | KhpErrorWriteTimeout
  | KhpErrorOffsetCommitTimeout
  | KhpErrorOffsetFetchTimeout
  | KhpErrorConsumerClosed
  | KhpErrorProducerClosed
  | KhpErrorOffsetCoordinatorClosed
  | KhpErrorMetadataReadTimeout

text \<open>
  Go's \<open>error\<close> interface values that the code tells apart: the proxy's own
  \<open>KhpError\<close>, the library's \<open>kafka.ErrNoData\<close>, the named
  \<open>*proto.KafkaError\<close> values, any other \<open>*proto.KafkaError\<close> (by code), and
  every other (transport-level) error.
\<close>

datatype error =
    KhpError errno string
  | KafkaErrNoData
  | ErrLeaderNotAvailable
  | ErrReplicaNotAvailable
  | ErrUnknownTopicOrPartition
  | ProtoKafkaError int
  | OtherError string

subsection \<open>Metadata snapshot\<close>

text \<open>
  The fields of \<open>proto.MetadataResp\<close> that the code reads: per topic a name, an
  error marker (\<open>nil\<close> is \<open>None\<close>) and its partitions; per partition an id, an
  error marker, the leader and the in-sync replicas. Record fields carry a
  \<open>t_\<close> or \<open>p_\<close> prefix because the methods \<open>Leader\<close>, \<open>Replicas\<close>,
  \<open>Partitions\<close> and \<open>Topics\<close> of the wrapper have the fields' names.
\<close>

record MetadataRespPartition =
  p_ID :: int32
  p_Err :: "error option"
  p_Leader :: int32
  p_Replicas :: "int32 list"
  p_Isrs :: "int32 list"

record MetadataRespTopic =
  t_Name :: string
  t_Err :: "error option"
  t_Partitions :: "MetadataRespPartition list"

text \<open>\<open>KafkaMetadata\<close> wraps one response; \<open>Metadata\<close> is its \<open>Topics\<close> slice.\<close>

record KafkaMetadata =
  Metadata :: "MetadataRespTopic list"

subsection \<open>The client: pool and cache\<close>

text \<open>
  \<open>KafkaClient\<close>. The two buffered channels are FIFO queues (the head of the
  list is received next); the two named counters are integers; the cache
  holds a pointer to the last snapshot (\<open>nil\<close> is \<open>None\<close>) and its timestamp.
  Senders never block as long as at most \<open>NumConns\<close> ids circulate, so the
  channel capacity is not part of the state.
\<close>

record KafkaClient =
  GetMetadataTimeout :: duration
  MetadataCachePeriod :: duration
  GetOffsetsTimeout :: duration
  ReconnectPeriod :: duration
  freeBrokers :: "int64 list"
  deadBrokers :: "int64 list"
  lastMetadata :: "KafkaMetadata option"
  lastUpdateMetadata :: int64
  FreeBrokersCounter :: int
  DeadBrokersCounter :: int

section \<open>Pool operations\<close>

text \<open>
  \<open>getBroker\<close>: a \<open>select\<close> with a \<open>default\<close> branch. When the channel holds a
  value it is received and the counter decremented; otherwise control falls
  through to the \<open>KhpErrorNoBrokers\<close> return. The channel is never closed, so the
  \<open>ok\<close> flag of a receive is always true.
\<close>

definition getBroker :: "KafkaClient \<Rightarrow> (error + int64) \<times> KafkaClient" where
  "getBroker k =
     (case freeBrokers k of
        brokerID # rest \<Rightarrow>
          (Inr brokerID,
           k\<lparr>freeBrokers := rest, FreeBrokersCounter := FreeBrokersCounter k - 1\<rparr>)
      | [] \<Rightarrow> (Inl (KhpError KhpErrorNoBrokers ''no brokers available''), k))"

definition freeBroker :: "KafkaClient \<Rightarrow> int64 \<Rightarrow> KafkaClient" where
  "freeBroker k brokerID =
     k\<lparr>freeBrokers := freeBrokers k @ [brokerID],
       FreeBrokersCounter := FreeBrokersCounter k + 1\<rparr>"

definition deadBroker :: "KafkaClient \<Rightarrow> int64 \<Rightarrow> KafkaClient" where
  "deadBroker k brokerID =
     k\<lparr>deadBrokers := deadBrokers k @ [brokerID],
       DeadBrokersCounter := DeadBrokersCounter k + 1\<rparr>"

text \<open>A client with the given free queue and the default timeouts of \<open>SetDefaults\<close>.\<close>

definition clientWith :: "int64 list \<Rightarrow> KafkaClient" where
  "clientWith free =
     \<lparr>GetMetadataTimeout = 1000000000, MetadataCachePeriod = 3000000000,
      GetOffsetsTimeout = 10000000000, ReconnectPeriod = 15000000000,
      freeBrokers = free, deadBrokers = [], lastMetadata = None,
      lastUpdateMetadata = 0, FreeBrokersCounter = int (length free),
      DeadBrokersCounter = 0\<rparr>"

section \<open>Deadlines\<close>

text \<open>
  Every guarded operation starts the delegate call on a goroutine of its own
  and then waits in a \<open>select\<close> on two channels: \<open>result\<close>, closed when the call
  has returned, and \<open>timeout\<close>, closed by a timer that is armed only when the
  configured timeout is positive. Which of the two the \<open>select\<close> sees first is
  decided by the broker and the scheduler, so it is an input of the model:
  \<open>Completed r\<close> when the call returned \<open>r\<close> first, \<open>Elapsed\<close> when it had not
  returned by the time the timer fired.
\<close>

datatype 'r outcome = Completed 'r | Elapsed

text \<open>
  With no timer armed the \<open>timeout\<close> channel is never closed: a call that does
  not return leaves the \<open>select\<close> waiting for ever, which is \<open>None\<close>.
\<close>

definition selectOn :: "duration \<Rightarrow> 'r outcome \<Rightarrow> 'r outcome option" where
  "selectOn timeout ev =
     (case ev of
        Completed r \<Rightarrow> Some (Completed r)
      | Elapsed \<Rightarrow> if 0 <s timeout then Some Elapsed else None)"

section \<open>Client operations\<close>

text \<open>
  \<open>GetOffsets\<close>. Two goroutines call \<open>OffsetEarliest\<close> and \<open>OffsetLatest\<close> and
  each sends its last error on \<open>results\<close>; the caller runs one \<open>select\<close> per
  entry of \<open>offsets\<close>. The model takes what each of these two \<open>select\<close>s sees
  (\<open>ev1\<close>, \<open>ev2\<close>) and the two \<open>result\<close> fields as they stand at the return
  (\<open>r0\<close>, \<open>r1\<close>). A \<open>break\<close> inside a \<open>select\<close> case leaves the \<open>select\<close>, not the
  \<open>for\<close> loop, so both iterations always run.
\<close>

definition offsetsSelect ::
  "duration \<Rightarrow> error option outcome \<Rightarrow> (bool \<times> error option) \<Rightarrow> (bool \<times> error option) option" where
  "offsetsSelect timeout ev st =
     (case selectOn timeout ev of
        None \<Rightarrow> None
      | Some (Completed e) \<Rightarrow> Some (fst st, e)
      | Some Elapsed \<Rightarrow> Some (True, Some (KhpError KhpErrorReadTimeout ''Read timeout'')))"

definition GetOffsets ::
  "KafkaClient \<Rightarrow> error option outcome \<Rightarrow> error option outcome \<Rightarrow> int64 \<Rightarrow> int64
     \<Rightarrow> ((int64 \<times> int64 \<times> error option) \<times> KafkaClient) option" where
  "GetOffsets k ev1 ev2 r0 r1 =
     (case getBroker k of
        (Inl err, k') \<Rightarrow> Some ((0, 0, Some err), k')
      | (Inr brokerID, k') \<Rightarrow>
          (case offsetsSelect (GetOffsetsTimeout k') ev1 (False, None) of
             None \<Rightarrow> None
           | Some st1 \<Rightarrow>
               (case offsetsSelect (GetOffsetsTimeout k') ev2 st1 of
                  None \<Rightarrow> None
                | Some (isTimeout, err) \<Rightarrow>
                    Some ((r0, r1, err),
                          if isTimeout then deadBroker k' brokerID
                          else freeBroker k' brokerID))))"

text \<open>
  \<open>GetMetadata\<close>. The delegate returns a response or an error. On the error
  paths the Go function returns a wrapper whose \<open>Metadata\<close> pointer is \<open>nil\<close>
  (or a \<open>nil\<close> wrapper); no caller reads it, and the model returns \<open>None\<close>.
\<close>

definition GetMetadata ::
  "KafkaClient \<Rightarrow> (error + MetadataRespTopic list) outcome
     \<Rightarrow> ((KafkaMetadata option \<times> error option) \<times> KafkaClient) option" where
  "GetMetadata k ev =
     (case getBroker k of
        (Inl err, k') \<Rightarrow> Some ((None, Some err), k')
      | (Inr brokerID, k') \<Rightarrow>
          (case selectOn (GetMetadataTimeout k') ev of
             None \<Rightarrow> None
           | Some (Completed (Inr resp)) \<Rightarrow>
               Some ((Some \<lparr>Metadata = resp\<rparr>, None), freeBroker k' brokerID)
           | Some (Completed (Inl kafkaErr)) \<Rightarrow>
               Some ((None, Some kafkaErr), freeBroker k' brokerID)
           | Some Elapsed \<Rightarrow>
               Some ((None, Some (KhpError KhpErrorMetadataReadTimeout ''Read timeout'')),
                     deadBroker k' brokerID)))"


section \<open>Queries on a snapshot\<close>



datatype partitionType = allPartitions | writablePartitions | maxPartitionIndex

fun partitionIDs :: "MetadataRespPartition list \<Rightarrow> partitionType \<Rightarrow> int32 list" where
  "partitionIDs [] pType = []"
| "partitionIDs (p # ps) pType =
     (if pType = writablePartitions \<and> p_Err p = Some ErrLeaderNotAvailable
      then partitionIDs ps pType
      else p_ID p # partitionIDs ps pType)"

fun getPartitionsLoop ::
  "MetadataRespTopic list \<Rightarrow> string \<Rightarrow> partitionType \<Rightarrow> int32 list \<Rightarrow> int32 list \<times> error option" where
  "getPartitionsLoop [] topic pType partitions = (partitions, None)"
| "getPartitionsLoop (t # rest) topic pType partitions =
     (case t_Err t of
        Some e \<Rightarrow> ([], Some e)
      | None \<Rightarrow>
          if t_Name t \<noteq> topic then getPartitionsLoop rest topic pType partitions
          else getPartitionsLoop rest topic pType
                 (partitions @ partitionIDs (t_Partitions t) pType))"

definition getPartitions ::
  "KafkaMetadata \<Rightarrow> string \<Rightarrow> partitionType \<Rightarrow> int32 list \<times> error option" where
  "getPartitions m topic pType = getPartitionsLoop (Metadata m) topic pType []"


definition WritablePartitions :: "KafkaMetadata \<Rightarrow> string \<Rightarrow> int32 list \<times> error option" where
  "WritablePartitions m topic = getPartitions m topic writablePartitions"




section \<open>Session handles\<close>

text \<open>The fields of \<open>Config\<close> that the modelled code reads.\<close>

record Config =
  Consumer_GetMessageTimeout :: duration
  Consumer_MinFetchSize :: int32
  Consumer_MaxFetchSize :: int32
  Consumer_DefaultFetchSize :: int32
  Producer_SendMessageTimeout :: duration
  OffsetCoordinator_CommitOffsetTimeout :: duration
  OffsetCoordinator_FetchOffsetTimeout :: duration

text \<open>
  What \<open>NewConsumer\<close> puts into the delegate's \<open>ConsumerConf\<close>, as far as it
  depends on the request.
\<close>

record ConsumerConf =
  conf_Topic :: string
  conf_Partition :: int32
  conf_MinFetchSize :: int32
  conf_MaxFetchSize :: int32
  conf_StartOffset :: int64

text \<open>
  The three handle types share \<open>brokerID\<close> and \<open>opened\<close>; their \<open>Close\<close> and
  \<open>Corrupt\<close> methods are the same text three times, so each is one function
  on the common part of the record. A handle is a pointer in Go: the model
  returns the updated handle next to the updated client.
\<close>

record Session =
  brokerID :: int64
  opened :: bool

record KafkaConsumer = Session +
  consumer :: ConsumerConf
  GetMessageTimeout :: duration

record KafkaProducer = Session +
  SendMessageTimeout :: duration

record KafkaOffsetCoordinator = Session +
  consumerGroup :: string
  CommitOffsetTimeout :: duration
  FetchOffsetTimeout :: duration

definition Close :: "KafkaClient \<Rightarrow> 'a Session_scheme \<Rightarrow> KafkaClient \<times> 'a Session_scheme" where
  "Close k c =
     (if opened c then (freeBroker k (brokerID c), c\<lparr>opened := False\<rparr>) else (k, c))"

definition Corrupt :: "KafkaClient \<Rightarrow> 'a Session_scheme \<Rightarrow> KafkaClient \<times> 'a Session_scheme" where
  "Corrupt k c =
     (if \<not> opened c then (k, c) else (deadBroker k (brokerID c), c\<lparr>opened := False\<rparr>))"

text \<open>
  The constructors. \<open>created\<close> is what the delegate's \<open>Consumer(conf)\<close>
  (\<open>OffsetCoordinator(conf)\<close>) returns as its error; \<open>Producer(conf)\<close> returns
  no error.
\<close>

definition NewConsumer ::
  "KafkaClient \<Rightarrow> Config \<Rightarrow> string \<Rightarrow> int32 \<Rightarrow> int64 \<Rightarrow> error option
     \<Rightarrow> (error + KafkaConsumer) \<times> KafkaClient" where
  "NewConsumer k settings topic partitionID offset created =
     (case getBroker k of
        (Inl err, k') \<Rightarrow> (Inl err, k')
      | (Inr b, k') \<Rightarrow>
          (case created of
             Some err \<Rightarrow> (Inl err, freeBroker k' b)
           | None \<Rightarrow>
               (Inr \<lparr>brokerID = b, opened = True,
                     consumer = \<lparr>conf_Topic = topic, conf_Partition = partitionID,
                                 conf_MinFetchSize = Consumer_MinFetchSize settings,
                                 conf_MaxFetchSize = Consumer_MaxFetchSize settings,
                                 conf_StartOffset = offset\<rparr>,
                     GetMessageTimeout = Consumer_GetMessageTimeout settings\<rparr>, k')))"

definition NewProducer :: "KafkaClient \<Rightarrow> Config \<Rightarrow> (error + KafkaProducer) \<times> KafkaClient" where
  "NewProducer k settings =
     (case getBroker k of
        (Inl err, k') \<Rightarrow> (Inl err, k')
      | (Inr b, k') \<Rightarrow>
          (Inr \<lparr>brokerID = b, opened = True,
                SendMessageTimeout = Producer_SendMessageTimeout settings\<rparr>, k'))"

definition NewOffsetCoordinator ::
  "KafkaClient \<Rightarrow> Config \<Rightarrow> string \<Rightarrow> error option
     \<Rightarrow> (error + KafkaOffsetCoordinator) \<times> KafkaClient" where
  "NewOffsetCoordinator k settings grp created =
     (case getBroker k of
        (Inl err, k') \<Rightarrow> (Inl err, k')
      | (Inr b, k') \<Rightarrow>
          (case created of
             Some err \<Rightarrow> (Inl err, k')
           | None \<Rightarrow>
               (Inr \<lparr>brokerID = b, opened = True, consumerGroup = grp,
                     CommitOffsetTimeout = OffsetCoordinator_CommitOffsetTimeout settings,
                     FetchOffsetTimeout = OffsetCoordinator_FetchOffsetTimeout settings\<rparr>,
                k')))"

text \<open>
  The four guarded operations share one shape: refuse a closed handle, else
  wait for the delegate or the timer; on the timer \<open>Corrupt\<close> the handle and
  return the operation's timeout error. Nothing on the timer branch touches
  the goroutine that runs the delegate call. \<open>guarded\<close> is that shape; the
  delegate's reply \<open>'r\<close> already carries its error.
\<close>

definition guarded ::
  "error \<Rightarrow> error \<Rightarrow> duration \<Rightarrow> KafkaClient \<Rightarrow> 'a Session_scheme \<Rightarrow> (error + 'r) outcome
     \<Rightarrow> ((error + 'r) \<times> KafkaClient \<times> 'a Session_scheme) option" where
  "guarded closedErr timeoutErr timeout k c ev =
     (if \<not> opened c then Some (Inl closedErr, k, c)
      else
        (case selectOn timeout ev of
           None \<Rightarrow> None
         | Some (Completed r) \<Rightarrow> Some (r, k, c)
         | Some Elapsed \<Rightarrow>
             (let (k', c') = Corrupt k c in Some (Inl timeoutErr, k', c'))))"

text \<open>\<open>proto.Message\<close>: the two fields the handler reads.\<close>

record Message =
  msg_Offset :: int64
  msg_Value :: string

definition Message ::
  "KafkaClient \<Rightarrow> KafkaConsumer \<Rightarrow> (error + Message) outcome
     \<Rightarrow> ((error + Message) \<times> KafkaClient \<times> KafkaConsumer) option" where
  "Message k c ev =
     guarded (KhpError KhpErrorConsumerClosed ''Read from closed consumer'')
             (KhpError KhpErrorReadTimeout ''Read timeout'')
             (GetMessageTimeout c) k c ev"

definition SendMessage ::
  "KafkaClient \<Rightarrow> KafkaProducer \<Rightarrow> (error + int64) outcome
     \<Rightarrow> ((error + int64) \<times> KafkaClient \<times> KafkaProducer) option" where
  "SendMessage k p ev =
     guarded (KhpError KhpErrorProducerClosed ''Write to closed producer'')
             (KhpError KhpErrorWriteTimeout ''Write timeout'')
             (SendMessageTimeout p) k p ev"

definition CommitOffset ::
  "KafkaClient \<Rightarrow> KafkaOffsetCoordinator \<Rightarrow> (error + unit) outcome
     \<Rightarrow> ((error + unit) \<times> KafkaClient \<times> KafkaOffsetCoordinator) option" where
  "CommitOffset k c ev =
     guarded (KhpError KhpErrorOffsetCoordinatorClosed ''Write to closed offset coordinator'')
             (KhpError KhpErrorOffsetCommitTimeout ''Offset commit timeout'')
             (CommitOffsetTimeout c) k c ev"

definition FetchOffset ::
  "KafkaClient \<Rightarrow> KafkaOffsetCoordinator \<Rightarrow> (error + int64 \<times> string) outcome
     \<Rightarrow> ((error + int64 \<times> string) \<times> KafkaClient \<times> KafkaOffsetCoordinator) option" where
  "FetchOffset k c ev =
     guarded (KhpError KhpErrorOffsetCoordinatorClosed ''Read from closed offset coordinator'')
             (KhpError KhpErrorOffsetFetchTimeout ''Offset fetch timeout'')
             (FetchOffsetTimeout c) k c ev"

section \<open>The GET handler\<close>

record kafkaParameters =
  Topic :: string
  Partition :: int32
  Offset :: int64

text \<open>
  What the handler does to the response writer, in order. \<open>errorResponse\<close>,
  \<open>errorOutOfRange\<close>, \<open>beginResponse\<close> and \<open>endResponseSuccess\<close> belong to the
  server file, which is not among the files modelled here: each call is recorded
  with its arguments. \<open>WriteQuery\<close> is \<open>w.Write(queryStr)\<close>, \<open>WriteValue\<close> is
  \<open>w.Write(msg.Value)\<close>, \<open>Write\<close> a write of literal bytes. \<open>Panic\<close> marks a
  \<open>nil\<close> dereference.
\<close>

datatype emitted =
    ErrorResponse nat string "error option"
  | ErrorOutOfRange string int32 int64 int64
  | BeginResponse nat
  | Write string
  | WriteQuery kafkaParameters
  | WriteValue string
  | EndResponseSuccess
  | Panic

definition httpStatusError :: "error \<Rightarrow> nat" where
  "httpStatusError err = (case err of KhpError _ _ \<Rightarrow> 503 | _ \<Rightarrow> 500)"

text \<open>
  Modelled from the spec: the per-topic size hints (\<open>s.MessageSize\<close>), whose
  type is declared in a file that is not modelled here. \<open>Get\<close> returns the stored
  value or the fallback; \<open>Put\<close> stores the maximum of the stored and the
  observed value.
\<close>

type_synonym hints = "string \<rightharpoonup> int32"

definition Get :: "hints \<Rightarrow> string \<Rightarrow> int32 \<Rightarrow> int32" where
  "Get h topic fallback = (case h topic of Some v \<Rightarrow> v | None \<Rightarrow> fallback)"

definition Put :: "hints \<Rightarrow> string \<Rightarrow> int32 \<Rightarrow> hints" where
  "Put h topic observed =
     (case h topic of
        Some v \<Rightarrow> if v <s observed then h(topic \<mapsto> observed) else h
      | None \<Rightarrow> h(topic \<mapsto> observed))"


text \<open>
  What the handler's surroundings answer during one request: the clock and
  the delegate's reply for \<open>FetchMetadata\<close>, what the two \<open>select\<close>s of
  \<open>GetOffsets\<close> see and the two offsets, and, numbered from 0 in the order of
  the calls, the delegate's answer to each consumer creation, each
  \<open>connIsAlive\<close> and each \<open>Consume\<close> (the \<open>i\<close>-th liveness check precedes the
  \<open>i\<close>-th \<open>Consume\<close>).
\<close>

record Env =
  clock :: int64
  metadataReply :: "(error + MetadataRespTopic list) outcome"
  offsetsReply1 :: "error option outcome"
  offsetsReply2 :: "error option outcome"
  offsetEarliest :: int64
  offsetLatest :: int64
  consumerCreated :: "nat \<Rightarrow> error option"
  connIsAlive :: "nat \<Rightarrow> bool"
  consume :: "nat \<Rightarrow> (error + Message) outcome"

text \<open>
  The handler's variables. \<open>length'\<close> and \<open>size'\<close> are the source's \<open>length\<close>
  and \<open>size\<close>; \<open>maxSize\<close> is a Go \<open>int\<close> (64 bits). \<open>deferred\<close> holds the
  consumers whose \<open>Close\<close> was deferred, latest first, each as it stands when
  the loop body is left; \<open>opens\<close> and \<open>reads\<close> count the calls of
  \<open>NewConsumer\<close> and of \<open>consumer.Message\<close>.
\<close>

record getState =
  client :: KafkaClient
  written :: "emitted list"
  offset :: int64
  length' :: int32
  size' :: int32
  maxSize :: int64
  notEnoughSize :: bool
  successSent :: bool
  deferred :: "KafkaConsumer list"
  opens :: nat
  reads :: nat

text \<open>
  How a piece of the handler is left: the function returns, the inner loop
  is left by \<open>break\<close>, the outer loop is left by \<open>break ConsumeLoop\<close>, the outer
  loop goes round again, or a call never returns.
\<close>

datatype exit = Return | BreakInner | BreakConsumeLoop | Continue | Blocked

definition quoted :: "string \<Rightarrow> string" where
  "quoted s = CHR 0x22 # s @ [CHR 0x22]"

text \<open>The opening of the success envelope, written before the first message.\<close>

definition envelopeOpen :: "kafkaParameters \<Rightarrow> emitted list" where
  "envelopeOpen query =
     [BeginResponse 200, Write ''{'', Write (quoted ''query'' @ '':''), WriteQuery query,
      Write ('','' @ quoted ''messages'' @ '':['')]"

definition closeIn :: "KafkaConsumer \<Rightarrow> getState \<Rightarrow> KafkaConsumer \<times> getState" where
  "closeIn c st = (let (k, c') = Close (client st) c in (c', st\<lparr>client := k\<rparr>))"

text \<open>
  One pass through the body of the inner \<open>for\<close> loop, lines 306 to 348;
  \<open>Continue\<close> says that the loop goes round again. \<open>length\<close> is decremented in
  \<open>int32\<close> and the loops are left when it reaches 0.
\<close>

definition innerBody ::
  "Env \<Rightarrow> kafkaParameters \<Rightarrow> int64 \<Rightarrow> KafkaConsumer \<Rightarrow> getState
     \<Rightarrow> exit \<times> KafkaConsumer \<times> getState" where
  "innerBody env query offsetTo c st =
     (if \<not> connIsAlive env (reads st) then
        (let (c', st') = closeIn c st in (Return, c', st'))
      else
        (case Message (client st) c (consume env (reads st)) of
           None \<Rightarrow> (Blocked, c, st)
         | Some (Inl err, k, c1) \<Rightarrow>
             (let st1 = st\<lparr>client := k, reads := Suc (reads st)\<rparr> in
              if err = KafkaErrNoData then (BreakInner, c1, st1\<lparr>notEnoughSize := True\<rparr>)
              else
                (let st2 = (if \<not> successSent st1
                            then st1\<lparr>written := written st1 @
                                   [ErrorResponse (httpStatusError err)
                                      ''Unable to get message: %v'' (Some err)]\<rparr>
                            else st1);
                     (c2, st3) = closeIn c1 st2
                 in (Return, c2, st3)))
         | Some (Inr msg, k, c1) \<Rightarrow>
             (let st1 = st\<lparr>client := k, reads := Suc (reads st)\<rparr>;
                  st2 = st1\<lparr>written := written st1
                               @ (if \<not> successSent st1 then envelopeOpen query
                                  else [Write '','']),
                             successSent := True\<rparr>;
                  len = (of_nat (length (msg_Value msg)) :: int64);
                  st3 = st2\<lparr>written := written st2 @ [WriteValue (msg_Value msg)],
                             offset := msg_Offset msg + 1,
                             length' := length' st2 - 1,
                             maxSize := (if maxSize st2 <s len then len else maxSize st2)\<rparr>
              in if offsetTo \<le>s offset st3 \<or> length' st3 = 0 then
                   (let (c2, st4) = closeIn c1 st3 in (BreakConsumeLoop, c2, st4))
                 else (Continue, c1, st3))))"

text \<open>The inner loop, lines 305 to 349, repeats its body until it is left.\<close>

function innerLoop ::
  "Env \<Rightarrow> kafkaParameters \<Rightarrow> int64 \<Rightarrow> KafkaConsumer \<Rightarrow> getState
     \<Rightarrow> exit \<times> KafkaConsumer \<times> getState" where
  "innerLoop env query offsetTo c st =
     (case innerBody env query offsetTo c st of
        (Continue, c1, st1) \<Rightarrow> innerLoop env query offsetTo c1 st1
      | (ex, c1, st1) \<Rightarrow> (ex, c1, st1))"
  by pat_completeness auto
termination
proof (relation "measure (\<lambda>(env, query, offsetTo, c, st). unat (length' st - 1))")
  show "wf (measure (\<lambda>(env, query, offsetTo, c, st). unat (length' st - 1)))"
    by simp
next
  fix env :: Env and query :: kafkaParameters and offsetTo :: int64
    and c c1 :: KafkaConsumer and st st1 :: getState and ex :: exit
    and r :: "KafkaConsumer \<times> getState"
  assume body: "(ex, r) = innerBody env query offsetTo c st"
    and ex: "ex = Continue" and r: "(c1, st1) = r"
  have dec: "w \<noteq> 0 \<Longrightarrow> unat (w - 1) < unat w" for w :: int32
    by (simp add: unat_minus_one unat_gt_0)
  from body [symmetric] ex r
  have l: "length' st1 = length' st - 1" and "length' st1 \<noteq> 0"
    by (auto simp add: innerBody_def closeIn_def Let_def
        split: if_splits option.splits sum.splits prod.splits)
  then have "length' st - 1 \<noteq> 0"
    by simp
  then have "unat (length' st - 1 - 1) < unat (length' st - 1)"
    by (rule dec)
  then have "unat (length' st1 - 1) < unat (length' st - 1)"
    by (simp only: l)
  then show "((env, query, offsetTo, c1, st1), env, query, offsetTo, c, st)
      \<in> measure (\<lambda>(env, query, offsetTo, c, st). unat (length' st - 1))"
    by simp
qed

text \<open>Lines 290 to 294: the budget handed to the consumer, in \<open>int32\<close>.\<close>

definition fetchBudget :: "int32 \<Rightarrow> int32 \<Rightarrow> int32 \<Rightarrow> int32" where
  "fetchBudget sz len maxFetch =
     (let b = sz * len in if maxFetch <s b then maxFetch else b)"

text \<open>
  One round of the outer loop, lines 289 to 360. \<open>cfg\<close> is \<open>s.Cfg\<close>; the
  handler's private copy differs from it in \<open>MaxFetchSize\<close> only, which is set
  anew in each round.
\<close>

definition consumeIteration ::
  "Env \<Rightarrow> Config \<Rightarrow> kafkaParameters \<Rightarrow> int64 \<Rightarrow> getState \<Rightarrow> exit \<times> getState" where
  "consumeIteration env cfg query offsetTo st =
     (let cfg' = cfg\<lparr>Consumer_MaxFetchSize :=
                  fetchBudget (size' st) (length' st) (Consumer_MaxFetchSize cfg)\<rparr>
      in case NewConsumer (client st) cfg' (Topic query) (Partition query) (offset st)
                (consumerCreated env (opens st)) of
           (Inl err, k) \<Rightarrow>
             (Return,
              st\<lparr>client := k, opens := Suc (opens st),
                 written := written st @
                   (if \<not> successSent st
                    then [ErrorResponse (httpStatusError err)
                            ''Unable to make consumer: %v'' (Some err)]
                    else [])\<rparr>)
         | (Inr c, k) \<Rightarrow>
             (case innerLoop env query offsetTo c (st\<lparr>client := k, opens := Suc (opens st)\<rparr>) of
                (BreakInner, c1, st1) \<Rightarrow>
                  (let (c2, st2) = closeIn c1 st1;
                       st3 = st2\<lparr>deferred := c2 # deferred st2\<rparr>
                   in if notEnoughSize st3 then
                        (if Consumer_MaxFetchSize cfg \<le>s size' st3 then (BreakConsumeLoop, st3)
                         else (Continue,
                               st3\<lparr>size' := size' st3 + Consumer_DefaultFetchSize cfg,
                                   notEnoughSize := False\<rparr>))
                      else (Continue, st3))
              | (ex, c1, st1) \<Rightarrow> (ex, st1\<lparr>deferred := c1 # deferred st1\<rparr>)))"

text \<open>
  The outer loop. Nothing in the source bounds the number of its rounds, so
  the model counts them down from \<open>fuel\<close>: \<open>None\<close> says that \<open>fuel\<close> rounds did
  not bring the loop to an end.
\<close>

fun ConsumeLoop ::
  "nat \<Rightarrow> Env \<Rightarrow> Config \<Rightarrow> kafkaParameters \<Rightarrow> int64 \<Rightarrow> getState \<Rightarrow> (exit \<times> getState) option" where
  "ConsumeLoop 0 env cfg query offsetTo st = None"
| "ConsumeLoop (Suc fuel) env cfg query offsetTo st =
     (case consumeIteration env cfg query offsetTo st of
        (Continue, st') \<Rightarrow> ConsumeLoop fuel env cfg query offsetTo st'
      | (ex, st') \<Rightarrow> Some (ex, st'))"

text \<open>The deferred \<open>consumer.Close()\<close> calls, run latest first when the handler returns.\<close>

fun runDeferred :: "KafkaConsumer list \<Rightarrow> KafkaClient \<Rightarrow> KafkaClient" where
  "runDeferred [] k = k"
| "runDeferred (c # cs) k = runDeferred cs (fst (Close k c))"

text \<open>What a run of the handler leaves behind.\<close>

record Served =
  how :: exit
  response :: "emitted list"
  clientAfter :: KafkaClient
  hintsAfter :: hints
  newConsumerCalls :: nat

text \<open>
  The handler's variables on entry to the outer loop, lines 280 to 286;
  \<open>sz\<close> is what \<open>s.MessageSize.Get\<close> returned.
\<close>

definition initialState :: "KafkaClient \<Rightarrow> kafkaParameters \<Rightarrow> int32 \<Rightarrow> int32 \<Rightarrow> getState" where
  "initialState k query len sz =
     \<lparr>client = k, written = [], offset = Offset query, length' = len, size' = sz,
      maxSize = 0, notEnoughSize = False, successSent = False,
      deferred = [], opens = 0, reads = 0\<rparr>"

text \<open>
  Lines 269 to 376: the range check, the loop and the closing of the
  envelope. \<open>json.Marshal\<close> of the three scalar fields of \<open>query\<close> cannot fail.
\<close>

definition readFrom ::
  "nat \<Rightarrow> Env \<Rightarrow> Config \<Rightarrow> hints \<Rightarrow> KafkaClient \<Rightarrow> kafkaParameters \<Rightarrow> int32 \<Rightarrow> int64 \<Rightarrow> int64
     \<Rightarrow> Served option" where
  "readFrom fuel env cfg h k query len offsetFrom offsetTo =
     (if Offset query <s offsetFrom \<or> offsetTo \<le>s Offset query then
        Some \<lparr>how = Return,
              response = [ErrorOutOfRange (Topic query) (Partition query) offsetFrom offsetTo],
              clientAfter = k, hintsAfter = h, newConsumerCalls = 0\<rparr>
      else
        (case ConsumeLoop fuel env cfg query offsetTo
                (initialState k query len
                   (Get h (Topic query) (Consumer_DefaultFetchSize cfg))) of
           None \<Rightarrow> None
         | Some (BreakConsumeLoop, st) \<Rightarrow>
             Some \<lparr>how = Return,
                   response = written st
                     @ (if \<not> successSent st then envelopeOpen query else [])
                     @ [Write '']}'', EndResponseSuccess],
                   clientAfter = runDeferred (deferred st) (client st),
                   hintsAfter = (if 0 <s maxSize st
                                 then Put h (Topic query) (ucast (maxSize st)) else h),
                   newConsumerCalls = opens st\<rparr>
         | Some (Return, st) \<Rightarrow>
             Some \<lparr>how = Return, response = written st,
                   clientAfter = runDeferred (deferred st) (client st),
                   hintsAfter = h, newConsumerCalls = opens st\<rparr>
         | Some (ex, st) \<Rightarrow>
             Some \<lparr>how = ex, response = written st, clientAfter = client st,
                   hintsAfter = h, newConsumerCalls = opens st\<rparr>))"






section \<open>Notions used in the statements\<close>


text \<open>Recognisers for two kinds of entries of the response.\<close>

definition isOutOfRange :: "emitted \<Rightarrow> bool" where
  "isOutOfRange e = (case e of ErrorOutOfRange _ _ _ _ \<Rightarrow> True | _ \<Rightarrow> False)"

definition isValue :: "emitted \<Rightarrow> bool" where
  "isValue e = (case e of WriteValue _ \<Rightarrow> True | _ \<Rightarrow> False)"

text \<open>
  The bound of the termination property, \<open>\<lceil>MaxFetchSize / DefaultFetchSize\<rceil>\<close>
  on the signed values (\<open>div\<close> rounds down, so the ceiling is a negated
  quotient of the negation).
\<close>

definition outerBound :: "Config \<Rightarrow> nat" where
  "outerBound cfg =
     nat (- ((- sint (Consumer_MaxFetchSize cfg)) div sint (Consumer_DefaultFetchSize cfg)))"

text \<open>The round ended on a \<open>Consume\<close> that returned \<open>kafka.ErrNoData\<close>.\<close>

definition endedOnNoData :: "Env \<Rightarrow> getState \<Rightarrow> getState \<Rightarrow> bool" where
  "endedOnNoData env st st' =
     (reads st < reads st'
      \<and> consume env (reads st' - 1) = Completed (Inl KafkaErrNoData))"

section \<open>Sample inputs\<close>

text \<open>The values of \<open>SetDefaults\<close> (durations in nanoseconds).\<close>

definition defaultConfig :: Config where
  "defaultConfig =
     \<lparr>Consumer_GetMessageTimeout = 15000000000,
      Consumer_MinFetchSize = 1,
      Consumer_MaxFetchSize = 4194304,
      Consumer_DefaultFetchSize = 524288,
      Producer_SendMessageTimeout = 15000000000,
      OffsetCoordinator_CommitOffsetTimeout = 15000000000,
      OffsetCoordinator_FetchOffsetTimeout = 15000000000\<rparr>"


definition cleanSnapshot :: KafkaMetadata where
  "cleanSnapshot =
     \<lparr>Metadata =
        [\<lparr>t_Name = ''a'', t_Err = None, t_Partitions = []\<rparr>,
         \<lparr>t_Name = ''b'', t_Err = None,
          t_Partitions = [\<lparr>p_ID = 0, p_Err = None, p_Leader = 7, p_Replicas = [7],
                           p_Isrs = [7]\<rparr>]\<rparr>]\<rparr>"



text \<open>
  Surroundings in which the connection stays alive, every consumer is
  created and the \<open>i\<close>-th \<open>Consume\<close> is answered as \<open>answers i\<close> says.
\<close>

definition envWith :: "(nat \<Rightarrow> (error + Message) outcome) \<Rightarrow> Env" where
  "envWith answers =
     \<lparr>clock = 1800000000000000000,
      metadataReply = Completed (Inr (Metadata cleanSnapshot)),
      offsetsReply1 = Completed None,
      offsetsReply2 = Completed None,
      offsetEarliest = 0,
      offsetLatest = 10,
      consumerCreated = (\<lambda>i. None),
      connIsAlive = (\<lambda>i. True),
      consume = answers\<rparr>"

text \<open>The broker has no data that fits, whatever the budget.\<close>

definition noData :: "nat \<Rightarrow> (error + Message) outcome" where
  "noData i = Completed (Inl KafkaErrNoData)"

text \<open>One message of two bytes, then a transport error.\<close>

definition oneThenError :: "nat \<Rightarrow> (error + Message) outcome" where
  "oneThenError i =
     (if i = 0 then Completed (Inr \<lparr>msg_Offset = 0, msg_Value = ''{}''\<rparr>)
      else Completed (Inl (OtherError ''connection reset'')))"

definition queryB :: kafkaParameters where
  "queryB = \<lparr>Topic = ''b'', Partition = 0, Offset = 0\<rparr>"

text \<open>A configuration whose sizes are near the top of \<open>int32\<close>.\<close>

definition wideConfig :: Config where
  "wideConfig =
     defaultConfig\<lparr>Consumer_MaxFetchSize := 2147483647,
                   Consumer_DefaultFetchSize := 1073741824\<rparr>"

text \<open>The outer loop's variables on entry, with a hint of \<open>2 ^ 30\<close> bytes.\<close>

definition wideStart :: getState where
  "wideStart = initialState (clientWith [0]) queryB 1 1073741824"

text \<open>Hints after a message of two bytes was produced to topic \<open>b\<close>.\<close>

definition smallHint :: hints where
  "smallHint = Map.empty(''b'' \<mapsto> 2)"




section \<open>Properties of the pool\<close>

lemma getBroker_Cons:
  "freeBrokers k = b # rest \<Longrightarrow>
     getBroker k = (Inr b, k\<lparr>freeBrokers := rest, FreeBrokersCounter := FreeBrokersCounter k - 1\<rparr>)"
  by (simp add: getBroker_def)

lemma getBroker_Nil:
  "freeBrokers k = [] \<Longrightarrow>
     getBroker k = (Inl (KhpError KhpErrorNoBrokers ''no brokers available''), k)"
  by (simp add: getBroker_def)

text \<open>
  C1. \<open>getBroker\<close> is a total function of the pool state, so it never waits.
  With a non-empty free queue it returns an id of that queue (its head),
  removes it and lowers the \<open>FreeBrokers\<close> counter by one, leaving the dead
  queue and its counter alone; with an empty free queue it returns the
  \<open>KhpErrorNoBrokers\<close> error and the pool state it was given.
\<close>

theorem getBroker_nonblocking:
  "(freeBrokers k \<noteq> [] \<longrightarrow>
      (\<exists>brokerID k'. getBroker k = (Inr brokerID, k')
         \<and> brokerID \<in> set (freeBrokers k)
         \<and> freeBrokers k = brokerID # freeBrokers k'
         \<and> FreeBrokersCounter k' = FreeBrokersCounter k - 1
         \<and> deadBrokers k' = deadBrokers k
         \<and> DeadBrokersCounter k' = DeadBrokersCounter k))
   \<and> (freeBrokers k = [] \<longrightarrow>
      (\<exists>msg. getBroker k = (Inl (KhpError KhpErrorNoBrokers msg), k)))"
  by (cases "freeBrokers k") (simp_all add: getBroker_def)

text \<open>Both cases of C1 on concrete pools.\<close>

theorem getBroker_nonblocking_witness:
  "(\<exists>brokerID k'. getBroker (clientWith [3, 5]) = (Inr brokerID, k')
         \<and> brokerID \<in> set (freeBrokers (clientWith [3, 5]))
         \<and> freeBrokers (clientWith [3, 5]) = brokerID # freeBrokers k'
         \<and> FreeBrokersCounter k' = FreeBrokersCounter (clientWith [3, 5]) - 1
         \<and> deadBrokers k' = deadBrokers (clientWith [3, 5])
         \<and> DeadBrokersCounter k' = DeadBrokersCounter (clientWith [3, 5]))
   \<and> (\<exists>msg. getBroker (clientWith []) = (Inl (KhpError KhpErrorNoBrokers msg), clientWith []))"
proof -
  have ne: "freeBrokers (clientWith [3, 5]) \<noteq> []"
    by (simp add: clientWith_def)
  have em: "freeBrokers (clientWith []) = []"
    by (simp add: clientWith_def)
  from getBroker_nonblocking [of "clientWith [3, 5]"] ne
    getBroker_nonblocking [of "clientWith []"] em
  show ?thesis by blast
qed

section \<open>Properties of the constructors\<close>

lemma NewConsumer_failure_releases:
  "freeBrokers k = b # rest \<Longrightarrow>
     NewConsumer k settings topic partitionID off (Some err)
       = (Inl err, k\<lparr>freeBrokers := rest @ [b]\<rparr>)"
  by (simp add: NewConsumer_def getBroker_def freeBroker_def)

lemma NewOffsetCoordinator_failure_keeps:
  "freeBrokers k = b # rest \<Longrightarrow>
     NewOffsetCoordinator k settings grp (Some err)
       = (Inl err, k\<lparr>freeBrokers := rest, FreeBrokersCounter := FreeBrokersCounter k - 1\<rparr>)"
  by (simp add: NewOffsetCoordinator_def getBroker_def)

text \<open>
  C2. Session hygiene asks that an id borrowed by a constructor is released
  before the constructor returns an error. \<open>NewConsumer\<close> does so;
  \<open>NewOffsetCoordinator\<close> does not: with one free id and a delegate that
  refuses to create the coordinator, it returns the error and leaves the id
  in neither queue, with no handle through which it could be given back.
\<close>

theorem NewOffsetCoordinator_failure_leaks:
  "NewOffsetCoordinator (clientWith [0]) defaultConfig ''group'' (Some (OtherError ''refused''))
     = (Inl (OtherError ''refused''), (clientWith [])\<lparr>FreeBrokersCounter := 0\<rparr>)
   \<and> freeBrokers ((clientWith [])\<lparr>FreeBrokersCounter := 0\<rparr>) = []
   \<and> deadBrokers ((clientWith [])\<lparr>FreeBrokersCounter := 0\<rparr>) = []
   \<and> NewConsumer (clientWith [0]) defaultConfig ''topic'' 0 0 (Some (OtherError ''refused''))
     = (Inl (OtherError ''refused''), clientWith [0])"
  by (simp add: NewOffsetCoordinator_def NewConsumer_def getBroker_def freeBroker_def
      clientWith_def)

lemma Close_twice: "Close (fst (Close k c)) (snd (Close k c)) = Close k c"
  by (simp add: Close_def)

lemma Close_after_Corrupt: "Close (fst (Corrupt k c)) (snd (Corrupt k c)) = Corrupt k c"
  by (simp add: Close_def Corrupt_def)

lemma Corrupt_twice: "Corrupt (fst (Corrupt k c)) (snd (Corrupt k c)) = Corrupt k c"
  by (simp add: Corrupt_def)

section \<open>The timer branch of the guarded operations\<close>

lemma guarded_Elapsed:
  "opened c \<Longrightarrow> 0 <s timeout \<Longrightarrow>
     guarded closedErr timeoutErr timeout k c Elapsed
       = Some (Inl timeoutErr, deadBroker k (brokerID c), c\<lparr>opened := False\<rparr>)"
  by (simp add: guarded_def selectOn_def Corrupt_def)

lemma guarded_Completed:
  "opened c \<Longrightarrow> guarded closedErr timeoutErr timeout k c (Completed r) = Some (r, k, c)"
  by (simp add: guarded_def selectOn_def)

lemma Message_Elapsed:
  "opened c \<Longrightarrow> 0 <s GetMessageTimeout c \<Longrightarrow>
     Message k c Elapsed
       = Some (Inl (KhpError KhpErrorReadTimeout ''Read timeout''),
               deadBroker k (brokerID c), c\<lparr>opened := False\<rparr>)"
  by (simp add: Message_def guarded_Elapsed)

lemma SendMessage_Elapsed:
  "opened p \<Longrightarrow> 0 <s SendMessageTimeout p \<Longrightarrow>
     SendMessage k p Elapsed
       = Some (Inl (KhpError KhpErrorWriteTimeout ''Write timeout''),
               deadBroker k (brokerID p), p\<lparr>opened := False\<rparr>)"
  by (simp add: SendMessage_def guarded_Elapsed)

lemma CommitOffset_Elapsed:
  "opened c \<Longrightarrow> 0 <s CommitOffsetTimeout c \<Longrightarrow>
     CommitOffset k c Elapsed
       = Some (Inl (KhpError KhpErrorOffsetCommitTimeout ''Offset commit timeout''),
               deadBroker k (brokerID c), c\<lparr>opened := False\<rparr>)"
  by (simp add: CommitOffset_def guarded_Elapsed)

lemma FetchOffset_Elapsed:
  "opened c \<Longrightarrow> 0 <s FetchOffsetTimeout c \<Longrightarrow>
     FetchOffset k c Elapsed
       = Some (Inl (KhpError KhpErrorOffsetFetchTimeout ''Offset fetch timeout''),
               deadBroker k (brokerID c), c\<lparr>opened := False\<rparr>)"
  by (simp add: FetchOffset_def guarded_Elapsed)

lemma GetMetadata_Elapsed:
  "freeBrokers k = b # rest \<Longrightarrow> 0 <s GetMetadataTimeout k \<Longrightarrow>
     GetMetadata k Elapsed
       = Some ((None, Some (KhpError KhpErrorMetadataReadTimeout ''Read timeout'')),
               deadBroker (k\<lparr>freeBrokers := rest,
                               FreeBrokersCounter := FreeBrokersCounter k - 1\<rparr>) b)"
  by (simp add: GetMetadata_def getBroker_def selectOn_def)

lemma GetOffsets_Elapsed_last:
  "freeBrokers k = b # rest \<Longrightarrow> 0 <s GetOffsetsTimeout k \<Longrightarrow>
     ev1 = Elapsed \<or> (\<exists>e. ev1 = Completed e) \<Longrightarrow>
     GetOffsets k ev1 Elapsed r0 r1
       = Some ((r0, r1, Some (KhpError KhpErrorReadTimeout ''Read timeout'')),
               deadBroker (k\<lparr>freeBrokers := rest,
                               FreeBrokersCounter := FreeBrokersCounter k - 1\<rparr>) b)"
  by (auto simp add: GetOffsets_def getBroker_def offsetsSelect_def selectOn_def)

lemma GetOffsets_Elapsed_first:
  "freeBrokers k = b # rest \<Longrightarrow> 0 <s GetOffsetsTimeout k \<Longrightarrow>
     GetOffsets k Elapsed (Completed e) r0 r1
       = Some ((r0, r1, e),
               deadBroker (k\<lparr>freeBrokers := rest,
                               FreeBrokersCounter := FreeBrokersCounter k - 1\<rparr>) b)"
  by (simp add: GetOffsets_def getBroker_def offsetsSelect_def selectOn_def)

text \<open>
  C3. On the timer branch a guarded operation quarantines its id and returns
  its timeout error: the lemmas above show it for \<open>Message\<close>, \<open>SendMessage\<close>,
  \<open>CommitOffset\<close>, \<open>FetchOffset\<close> and \<open>GetMetadata\<close>, and for \<open>GetOffsets\<close>
  when the timer is what its last \<open>select\<close> sees. In \<open>GetOffsets\<close> the timer
  branch of the first \<open>select\<close> does not leave the loop: when the second
  \<open>select\<close> then receives a result, the id is quarantined but the timeout
  error is overwritten by the received value (\<open>GetOffsets_Elapsed_first\<close>),
  here by \<open>nil\<close>.
\<close>

theorem GetOffsets_timeout_error_lost:
  "0 <s GetOffsetsTimeout (clientWith [0])
   \<and> GetOffsets (clientWith [0]) Elapsed (Completed None) 5 0
     = Some ((5, 0, None),
             (clientWith [])\<lparr>deadBrokers := [0], FreeBrokersCounter := 0,
                              DeadBrokersCounter := 1\<rparr>)"
  by (simp add: GetOffsets_def getBroker_def offsetsSelect_def selectOn_def deadBroker_def
      clientWith_def word_sless_alt)

section \<open>The metadata cache\<close>







section \<open>Leader lookup\<close>







section \<open>The inner loop\<close>

lemmas body_defs = innerBody_def Message_def guarded_def selectOn_def closeIn_def Close_def
  Corrupt_def Let_def

lemma innerBody_frame:
  assumes "innerBody env query offsetTo c st = (ex, c', st')"
  shows "size' st' = size' st" and "opens st' = opens st" and "deferred st' = deferred st"
    and "reads st \<le> reads st'" and "reads st' \<le> Suc (reads st)"
    and "consumer c' = consumer c" and "GetMessageTimeout c' = GetMessageTimeout c"
    and "brokerID c' = brokerID c"
  using assms
  by (auto simp add: body_defs
      split: if_splits option.splits sum.splits prod.splits outcome.splits)

lemma innerBody_BreakInner:
  assumes "innerBody env query offsetTo c st = (BreakInner, c', st')"
  shows "notEnoughSize st'"
  using assms
  by (auto simp add: body_defs
      split: if_splits option.splits sum.splits prod.splits outcome.splits)

lemma innerBody_Blocked:
  assumes "innerBody env query offsetTo c st = (Blocked, c', st')"
  shows "consume env (reads st) = Elapsed \<and> \<not> 0 <s GetMessageTimeout c"
  using assms
  by (auto simp add: body_defs
      split: if_splits option.splits sum.splits prod.splits outcome.splits)

lemma innerBody_written:
  assumes "innerBody env query offsetTo c st = (ex, c', st')"
  shows "\<exists>ws. written st' = written st @ ws \<and> (\<forall>e \<in> set ws. \<not> isOutOfRange e)
           \<and> length (filter isValue ws) \<le> 1
           \<and> (ex = Continue \<or> ex = BreakConsumeLoop \<longleftrightarrow> length (filter isValue ws) = 1)"
  using assms
  by (auto simp add: body_defs isOutOfRange_def isValue_def envelopeOpen_def
      split: if_splits option.splits sum.splits prod.splits outcome.splits)

lemma innerBody_Continue:
  assumes "innerBody env query offsetTo c st = (Continue, c', st')"
  shows "opened c'" and "reads st' = Suc (reads st)"
    and "\<exists>msg. consume env (reads st) = Completed (Inr msg)"
    and "length' st' = length' st - 1" and "length' st' \<noteq> 0"
  using assms
  by (auto simp add: body_defs
      split: if_splits option.splits sum.splits prod.splits outcome.splits)

lemma innerBody_noData:
  assumes "innerBody env query offsetTo c st = (ex, c', st')" and "opened c"
  shows "(ex = BreakInner)
           = (reads st < reads st' \<and> consume env (reads st) = Completed (Inl KafkaErrNoData))"
  using assms
  by (auto simp add: body_defs
      split: if_splits option.splits sum.splits prod.splits outcome.splits)

declare innerLoop.simps [simp del]

lemma innerLoop_Continue:
  "innerBody env query offsetTo c st = (Continue, c1, st1) \<Longrightarrow>
     innerLoop env query offsetTo c st = innerLoop env query offsetTo c1 st1"
  by (simp add: innerLoop.simps [of env query offsetTo c st])

lemma innerLoop_exit:
  "innerBody env query offsetTo c st = (ex, c1, st1) \<Longrightarrow> ex \<noteq> Continue \<Longrightarrow>
     innerLoop env query offsetTo c st = (ex, c1, st1)"
  by (cases ex) (simp_all add: innerLoop.simps [of env query offsetTo c st])

lemma innerLoop_rounds:
  assumes step: "\<And>c st. (\<And>c1 st1. innerBody env query offsetTo c st = (Continue, c1, st1)
                              \<Longrightarrow> P c1 st1) \<Longrightarrow> P c st"
  shows "P c st"
proof -
  have "e = env \<longrightarrow> q = query \<longrightarrow> t = offsetTo \<longrightarrow> P c st" for e q t
  proof (induction e q t c st rule: innerLoop.induct)
    case (1 e q t c st)
    show ?case
    proof (intro impI)
      assume eq: "e = env" "q = query" "t = offsetTo"
      show "P c st"
      proof (rule step)
        fix c1 st1
        assume "innerBody env query offsetTo c st = (Continue, c1, st1)"
        then show "P c1 st1"
          using "1.IH" [of Continue "(c1, st1)" c1 st1] eq by simp
      qed
    qed
  qed
  then show ?thesis by simp
qed

lemma innerLoop_frame:
  "innerLoop env query offsetTo c st = (ex, c', st') \<Longrightarrow>
     size' st' = size' st \<and> opens st' = opens st \<and> deferred st' = deferred st
     \<and> reads st \<le> reads st' \<and> consumer c' = consumer c
     \<and> GetMessageTimeout c' = GetMessageTimeout c \<and> ex \<noteq> Continue
     \<and> (ex = BreakInner \<longrightarrow> notEnoughSize st')"
proof (induction c st rule: innerLoop_rounds [where env = env and query = query and offsetTo = offsetTo])
  case (1 c st)
  obtain ex1 c1 st1 where b: "innerBody env query offsetTo c st = (ex1, c1, st1)"
    by (metis prod_cases3)
  show ?case
  proof (cases "ex1 = Continue")
    case True
    with b "1.prems" have "innerLoop env query offsetTo c1 st1 = (ex, c', st')"
      by (simp add: innerLoop_Continue)
    with b True have "size' st' = size' st1 \<and> opens st' = opens st1 \<and> deferred st' = deferred st1
     \<and> reads st1 \<le> reads st' \<and> consumer c' = consumer c1
     \<and> GetMessageTimeout c' = GetMessageTimeout c1 \<and> ex \<noteq> Continue
     \<and> (ex = BreakInner \<longrightarrow> notEnoughSize st')"
      using "1.IH" by simp
    then show ?thesis
      using innerBody_frame [OF b] by simp
  next
    case False
    with b "1.prems" have "(ex, c', st') = (ex1, c1, st1)"
      by (simp add: innerLoop_exit)
    then show ?thesis
      using innerBody_frame [OF b] innerBody_BreakInner [of env query offsetTo c st c' st'] b False
      by auto
  qed
qed

lemma innerLoop_Blocked:
  "innerLoop env query offsetTo c st = (Blocked, c', st') \<Longrightarrow>
     \<not> 0 <s GetMessageTimeout c \<and> (\<exists>i. consume env i = Elapsed)"
proof (induction c st rule: innerLoop_rounds [where env = env and query = query and offsetTo = offsetTo])
  case (1 c st)
  obtain ex1 c1 st1 where b: "innerBody env query offsetTo c st = (ex1, c1, st1)"
    by (metis prod_cases3)
  show ?case
  proof (cases "ex1 = Continue")
    case True
    with b "1.prems" have "innerLoop env query offsetTo c1 st1 = (Blocked, c', st')"
      by (simp add: innerLoop_Continue)
    with b True have "\<not> 0 <s GetMessageTimeout c1 \<and> (\<exists>i. consume env i = Elapsed)"
      using "1.IH" by simp
    then show ?thesis
      using innerBody_frame(7) [OF b] by simp
  next
    case False
    with b "1.prems" have "innerBody env query offsetTo c st = (Blocked, c', st')"
      by (simp add: innerLoop_exit)
    then show ?thesis
      using innerBody_Blocked by blast
  qed
qed

lemma innerLoop_written:
  "innerLoop env query offsetTo c st = (ex, c', st') \<Longrightarrow>
     \<exists>ws. written st' = written st @ ws \<and> (\<forall>e \<in> set ws. \<not> isOutOfRange e)"
proof (induction c st rule: innerLoop_rounds [where env = env and query = query and offsetTo = offsetTo])
  case (1 c st)
  obtain ex1 c1 st1 where b: "innerBody env query offsetTo c st = (ex1, c1, st1)"
    by (metis prod_cases3)
  from innerBody_written [OF b]
  obtain ws where ws: "written st1 = written st @ ws" "\<forall>e \<in> set ws. \<not> isOutOfRange e"
    by blast
  show ?case
  proof (cases "ex1 = Continue")
    case True
    with b "1.prems" have "innerLoop env query offsetTo c1 st1 = (ex, c', st')"
      by (simp add: innerLoop_Continue)
    with b True obtain vs where "written st' = written st1 @ vs" "\<forall>e \<in> set vs. \<not> isOutOfRange e"
      using "1.IH" by blast
    with ws have "written st' = written st @ (ws @ vs) \<and> (\<forall>e \<in> set (ws @ vs). \<not> isOutOfRange e)"
      by auto
    then show ?thesis by blast
  next
    case False
    with b "1.prems" have "st' = st1"
      by (simp add: innerLoop_exit)
    with ws show ?thesis by blast
  qed
qed

lemma innerLoop_noData:
  "innerLoop env query offsetTo c st = (ex, c', st') \<Longrightarrow> opened c \<Longrightarrow>
     (ex = BreakInner)
       = (reads st < reads st'
          \<and> consume env (reads st' - 1) = Completed (Inl KafkaErrNoData))"
proof (induction c st rule: innerLoop_rounds [where env = env and query = query and offsetTo = offsetTo])
  case (1 c st)
  obtain ex1 c1 st1 where b: "innerBody env query offsetTo c st = (ex1, c1, st1)"
    by (metis prod_cases3)
  show ?case
  proof (cases "ex1 = Continue")
    case True
    with b have bc: "innerBody env query offsetTo c st = (Continue, c1, st1)"
      by simp
    with "1.prems" have l: "innerLoop env query offsetTo c1 st1 = (ex, c', st')"
      by (simp add: innerLoop_Continue)
    from innerBody_Continue [OF bc]
    obtain msg where c1: "opened c1" and r1: "reads st1 = Suc (reads st)"
      and m: "consume env (reads st) = Completed (Inr msg)"
      by blast
    have IH: "(ex = BreakInner)
       = (reads st1 < reads st'
          \<and> consume env (reads st' - 1) = Completed (Inl KafkaErrNoData))"
      using "1.IH" [OF bc l c1] .
    have le: "reads st1 \<le> reads st'"
      using innerLoop_frame [OF l] by simp
    show ?thesis
    proof (cases "reads st1 = reads st'")
      case True
      then have "reads st' - 1 = reads st" and "\<not> reads st1 < reads st'"
        using r1 by simp_all
      then show ?thesis
        using IH m by simp
    next
      case False
      then show ?thesis
        using IH r1 le by auto
    qed
  next
    case False
    with b "1.prems" have e: "ex = ex1" "st' = st1"
      by (simp_all add: innerLoop_exit)
    have "reads st' \<le> Suc (reads st)" and "reads st \<le> reads st'"
      using innerBody_frame [OF b] e by simp_all
    then have "reads st < reads st' \<Longrightarrow> reads st' - 1 = reads st"
      by simp
    then show ?thesis
      using innerBody_noData [OF b "1.prems"(2)] e by auto
  qed
qed


section \<open>One round of the outer loop\<close>

lemma NewConsumer_Inr:
  assumes "NewConsumer k settings topic partitionID off created = (Inr c, k')"
  shows "opened c" and "conf_MaxFetchSize (consumer c) = Consumer_MaxFetchSize settings"
    and "GetMessageTimeout c = Consumer_GetMessageTimeout settings"
    and "conf_StartOffset (consumer c) = off"
  using assms
  by (auto simp add: NewConsumer_def getBroker_def split: list.splits option.splits)

lemma consumeIteration_cases:
  fixes env cfg query offsetTo st
  defines "cfg' \<equiv> cfg\<lparr>Consumer_MaxFetchSize :=
                  fetchBudget (size' st) (length' st) (Consumer_MaxFetchSize cfg)\<rparr>"
  defines "made \<equiv> NewConsumer (client st) cfg' (Topic query) (Partition query) (offset st)
                (consumerCreated env (opens st))"
  obtains (refused) err k where "made = (Inl err, k)"
      and "consumeIteration env cfg query offsetTo st
             = (Return, st\<lparr>client := k, opens := Suc (opens st),
                 written := written st @
                   (if \<not> successSent st
                    then [ErrorResponse (httpStatusError err)
                            ''Unable to make consumer: %v'' (Some err)]
                    else [])\<rparr>)"
    | (left) c k ex1 c1 st1 where "made = (Inr c, k)"
      and "innerLoop env query offsetTo c (st\<lparr>client := k, opens := Suc (opens st)\<rparr>)
             = (ex1, c1, st1)"
      and "ex1 \<noteq> BreakInner"
      and "consumeIteration env cfg query offsetTo st
             = (ex1, st1\<lparr>deferred := c1 # deferred st1\<rparr>)"
    | (noData) c k c1 st1 c2 st2 where "made = (Inr c, k)"
      and "innerLoop env query offsetTo c (st\<lparr>client := k, opens := Suc (opens st)\<rparr>)
             = (BreakInner, c1, st1)"
      and "closeIn c1 st1 = (c2, st2)"
      and "consumeIteration env cfg query offsetTo st
             = (if Consumer_MaxFetchSize cfg \<le>s size' st1
                then (BreakConsumeLoop, st2\<lparr>deferred := c2 # deferred st2\<rparr>)
                else (Continue, st2\<lparr>deferred := c2 # deferred st2,
                                   size' := size' st1 + Consumer_DefaultFetchSize cfg,
                                   notEnoughSize := False\<rparr>))"
proof -
  obtain r k where made: "made = (r, k)"
    by (cases made)
  show thesis
  proof (cases r)
    case (Inl err)
    with made show thesis
      by (intro refused [of err k]) (simp_all add: consumeIteration_def made_def cfg'_def)
  next
    case (Inr c)
    obtain ex1 c1 st1 where l:
      "innerLoop env query offsetTo c (st\<lparr>client := k, opens := Suc (opens st)\<rparr>) = (ex1, c1, st1)"
      by (metis prod_cases3)
    show thesis
    proof (cases "ex1 = BreakInner")
      case False
      with made Inr l show thesis
        by (intro left [of c k ex1 c1 st1])
          (cases ex1; simp add: consumeIteration_def made_def cfg'_def)+
    next
      case True
      obtain c2 st2 where cl: "closeIn c1 st1 = (c2, st2)"
        by (cases "closeIn c1 st1")
      then have same: "size' st2 = size' st1" "notEnoughSize st2 = notEnoughSize st1"
        by (auto simp add: closeIn_def Close_def split: if_splits)
      have "notEnoughSize st1"
        using innerLoop_frame [OF l] True by simp
      with made Inr l True cl same show thesis
        by (intro noData [of c k c1 st1 c2 st2])
          (simp_all add: consumeIteration_def made_def cfg'_def)
    qed
  qed
qed

lemma closeIn_frame:
  assumes "closeIn c st = (c', st')"
  shows "size' st' = size' st" and "reads st' = reads st" and "opens st' = opens st"
    and "written st' = written st" and "deferred st' = deferred st"
    and "length' st' = length' st" and "consumer c' = consumer c"
  using assms by (auto simp add: closeIn_def Close_def split: if_splits)

lemma consumeIteration_summary:
  assumes it: "consumeIteration env cfg query offsetTo st = (ex, st')"
  shows "opens st' = Suc (opens st)"
    and "ex = Return \<or> ex = BreakConsumeLoop \<or> ex = Continue \<or> ex = Blocked"
    and "ex = Blocked \<longrightarrow>
           \<not> 0 <s Consumer_GetMessageTimeout cfg \<and> (\<exists>i. consume env i = Elapsed)"
    and "\<exists>ws. written st' = written st @ ws \<and> (\<forall>e \<in> set ws. \<not> isOutOfRange e)"
    and "endedOnNoData env st st' \<longrightarrow>
           (if Consumer_MaxFetchSize cfg \<le>s size' st
            then ex = BreakConsumeLoop \<and> size' st' = size' st
            else ex = Continue \<and> size' st' = size' st + Consumer_DefaultFetchSize cfg)"
    and "\<not> endedOnNoData env st st' \<longrightarrow> ex \<noteq> Continue \<and> size' st' = size' st"
    and "deferred st' = deferred st
         \<or> (\<exists>c. deferred st' = c # deferred st
               \<and> conf_MaxFetchSize (consumer c)
                   = fetchBudget (size' st) (length' st) (Consumer_MaxFetchSize cfg))"
proof -
  have all: "opens st' = Suc (opens st)
    \<and> (ex = Return \<or> ex = BreakConsumeLoop \<or> ex = Continue \<or> ex = Blocked)
    \<and> (ex = Blocked \<longrightarrow>
           \<not> 0 <s Consumer_GetMessageTimeout cfg \<and> (\<exists>i. consume env i = Elapsed))
    \<and> (\<exists>ws. written st' = written st @ ws \<and> (\<forall>e \<in> set ws. \<not> isOutOfRange e))
    \<and> (endedOnNoData env st st' \<longrightarrow>
           (if Consumer_MaxFetchSize cfg \<le>s size' st
            then ex = BreakConsumeLoop \<and> size' st' = size' st
            else ex = Continue \<and> size' st' = size' st + Consumer_DefaultFetchSize cfg))
    \<and> (\<not> endedOnNoData env st st' \<longrightarrow> ex \<noteq> Continue \<and> size' st' = size' st)
    \<and> (deferred st' = deferred st
         \<or> (\<exists>c. deferred st' = c # deferred st
               \<and> conf_MaxFetchSize (consumer c)
                   = fetchBudget (size' st) (length' st) (Consumer_MaxFetchSize cfg)))"
  proof (cases env cfg query offsetTo st rule: consumeIteration_cases)
    case (refused err k)
    with it have ex: "ex = Return"
      and st': "st' = st\<lparr>client := k, opens := Suc (opens st),
                 written := written st @
                   (if \<not> successSent st
                    then [ErrorResponse (httpStatusError err)
                            ''Unable to make consumer: %v'' (Some err)]
                    else [])\<rparr>"
      by simp_all
    show ?thesis
      by (simp add: ex st' endedOnNoData_def isOutOfRange_def)
  next
    case (left c k ex1 c1 st1)
    with it have ex: "ex = ex1" and st': "st' = st1\<lparr>deferred := c1 # deferred st1\<rparr>"
      by simp_all
    note l = left(2)
    note c = NewConsumer_Inr [OF left(1)]
    have fr: "size' st1 = size' st" "opens st1 = Suc (opens st)" "deferred st1 = deferred st"
      "reads st \<le> reads st1" "consumer c1 = consumer c"
      "GetMessageTimeout c1 = GetMessageTimeout c" "ex1 \<noteq> Continue"
      using innerLoop_frame [OF l] by simp_all
    have bl: "ex1 = Blocked \<longrightarrow>
           \<not> 0 <s Consumer_GetMessageTimeout cfg \<and> (\<exists>i. consume env i = Elapsed)"
      using innerLoop_Blocked [of env query offsetTo c _ c1 st1] l c(3) by auto
    have wr: "\<exists>ws. written st1 = written st @ ws \<and> (\<forall>e \<in> set ws. \<not> isOutOfRange e)"
      using innerLoop_written [OF l] by simp
    have nd: "\<not> endedOnNoData env st st'"
      using innerLoop_noData [OF l c(1)] left(3) by (simp add: endedOnNoData_def st')
    have exs: "ex1 = Return \<or> ex1 = BreakConsumeLoop \<or> ex1 = Continue \<or> ex1 = Blocked"
      using left(3) by (cases ex1) simp_all
    show ?thesis
      using fr bl wr nd exs c(2) by (simp add: ex st')
  next
    case (noData c k c1 st1 c2 st2)
    note l = noData(2)
    note c = NewConsumer_Inr [OF noData(1)]
    note cl = closeIn_frame [OF noData(3)]
    have fr: "size' st1 = size' st" "opens st1 = Suc (opens st)" "deferred st1 = deferred st"
      "reads st \<le> reads st1" "consumer c1 = consumer c"
      using innerLoop_frame [OF l] by simp_all
    have wr: "\<exists>ws. written st1 = written st @ ws \<and> (\<forall>e \<in> set ws. \<not> isOutOfRange e)"
      using innerLoop_written [OF l] by simp
    have nd1: "reads st < reads st1
          \<and> consume env (reads st1 - 1) = Completed (Inl KafkaErrNoData)"
      using innerLoop_noData [OF l c(1)] by simp
    show ?thesis
    proof (cases "Consumer_MaxFetchSize cfg \<le>s size' st")
      case True
      with it noData(4) fr have ex: "ex = BreakConsumeLoop"
        and st': "st' = st2\<lparr>deferred := c2 # deferred st2\<rparr>"
        by simp_all
      show ?thesis
        using True fr wr nd1 cl c(2) by (simp add: ex st' endedOnNoData_def)
    next
      case False
      with it noData(4) fr have ex: "ex = Continue"
        and st': "st' = st2\<lparr>deferred := c2 # deferred st2,
                                   size' := size' st1 + Consumer_DefaultFetchSize cfg,
                                   notEnoughSize := False\<rparr>"
        by simp_all
      show ?thesis
        using False fr wr nd1 cl c(2) by (simp add: ex st' endedOnNoData_def)
    qed
  qed
  from all show "opens st' = Suc (opens st)" by simp
  from all show "ex = Return \<or> ex = BreakConsumeLoop \<or> ex = Continue \<or> ex = Blocked" by simp
  from all show "ex = Blocked \<longrightarrow>
           \<not> 0 <s Consumer_GetMessageTimeout cfg \<and> (\<exists>i. consume env i = Elapsed)" by simp
  from all show "\<exists>ws. written st' = written st @ ws \<and> (\<forall>e \<in> set ws. \<not> isOutOfRange e)"
    by simp
  from all show "endedOnNoData env st st' \<longrightarrow>
           (if Consumer_MaxFetchSize cfg \<le>s size' st
            then ex = BreakConsumeLoop \<and> size' st' = size' st
            else ex = Continue \<and> size' st' = size' st + Consumer_DefaultFetchSize cfg)"
    by simp
  from all show "\<not> endedOnNoData env st st' \<longrightarrow> ex \<noteq> Continue \<and> size' st' = size' st"
    by simp
  from all show "deferred st' = deferred st
         \<or> (\<exists>c. deferred st' = c # deferred st
               \<and> conf_MaxFetchSize (consumer c)
                   = fetchBudget (size' st) (length' st) (Consumer_MaxFetchSize cfg))"
    by simp
qed

section \<open>Budget and growth\<close>

lemma sint_add_in_range:
  fixes a b :: int32
  assumes "- (2 ^ 31) \<le> sint a + sint b" and "sint a + sint b < 2 ^ 31"
  shows "sint (a + b) = sint a + sint b"
  using assms by (simp add: sint_word_ariths signed_take_bit_int_eq_self)

lemma fetchBudget_min:
  "sint (fetchBudget sz len maxFetch) = min (sint (sz * len)) (sint maxFetch)"
  by (simp add: fetchBudget_def Let_def word_sless_alt min_def)

text \<open>
  C7, as amended. In every round of the outer loop the consumer that is
  opened gets the budget \<open>min (size * length) MaxFetchSize\<close>, the product
  taken in \<open>int32\<close> and the minimum on the signed values. When the round ends
  on a no data result, the loop is left if \<open>size \<ge> MaxFetchSize\<close> and
  otherwise \<open>size\<close> becomes \<open>size + DefaultFetchSize\<close> in \<open>int32\<close>; in every
  other round \<open>size\<close> stays and the loop does not go round again. \<open>size\<close>
  does not decrease when \<open>DefaultFetchSize \<ge> 0\<close> and the sum
  \<open>size + DefaultFetchSize\<close> stays below \<open>2 ^ 31\<close>.
\<close>

theorem consumeIteration_budget_growth:
  assumes "consumeIteration env cfg query offsetTo st = (ex, st')"
  shows "(deferred st' = deferred st
          \<or> (\<exists>c. deferred st' = c # deferred st
                \<and> sint (conf_MaxFetchSize (consumer c))
                    = min (sint (size' st * length' st)) (sint (Consumer_MaxFetchSize cfg))))
       \<and> (endedOnNoData env st st' \<longrightarrow>
            (if Consumer_MaxFetchSize cfg \<le>s size' st
             then ex = BreakConsumeLoop \<and> size' st' = size' st
             else ex = Continue \<and> size' st' = size' st + Consumer_DefaultFetchSize cfg))
       \<and> (\<not> endedOnNoData env st st' \<longrightarrow> ex \<noteq> Continue \<and> size' st' = size' st)
       \<and> (0 \<le>s Consumer_DefaultFetchSize cfg
            \<and> sint (size' st) + sint (Consumer_DefaultFetchSize cfg) < 2 ^ 31
            \<longrightarrow> size' st \<le>s size' st')"
proof -
  note s = consumeIteration_summary [OF assms]
  have mono: "size' st \<le>s size' st'"
    if d: "0 \<le>s Consumer_DefaultFetchSize cfg"
      and r: "sint (size' st) + sint (Consumer_DefaultFetchSize cfg) < 2 ^ 31"
  proof (cases "size' st' = size' st")
    case True
    then show ?thesis by simp
  next
    case False
    with s(5,6) have g: "size' st' = size' st + Consumer_DefaultFetchSize cfg"
      by (auto split: if_splits)
    have d0: "0 \<le> sint (Consumer_DefaultFetchSize cfg)"
      using d by (simp add: word_sle_eq)
    have "- (2 ^ 31) \<le> sint (size' st)"
      using sint_ge [of "size' st"] by simp
    with d0 have "- (2 ^ 31) \<le> sint (size' st) + sint (Consumer_DefaultFetchSize cfg)"
      by simp
    then have "sint (size' st + Consumer_DefaultFetchSize cfg)
                 = sint (size' st) + sint (Consumer_DefaultFetchSize cfg)"
      using r by (rule sint_add_in_range)
    with d0 show ?thesis
      by (simp add: g word_sle_eq)
  qed
  from s(7) have "deferred st' = deferred st
          \<or> (\<exists>c. deferred st' = c # deferred st
                \<and> sint (conf_MaxFetchSize (consumer c))
                    = min (sint (size' st * length' st)) (sint (Consumer_MaxFetchSize cfg)))"
    using fetchBudget_min by metis
  with s(5,6) mono show ?thesis
    by blast
qed

lemmas run_defs = readFrom_def initialState_def consumeIteration_def fetchBudget_def
  NewConsumer_def getBroker_def freeBroker_def deadBroker_def body_defs envWith_def
  clientWith_def defaultConfig_def queryB_def Get_def Put_def envelopeOpen_def quoted_def
  word_sless_alt word_sle_eq

lemma wide_round:
  "consumeIteration (envWith noData) wideConfig queryB 10 wideStart
     = (Continue,
        wideStart\<lparr>size' := - 2147483648, opens := 1, reads := 1,
          deferred := [\<lparr>brokerID = 0, opened = False,
             consumer = \<lparr>conf_Topic = ''b'', conf_Partition = 0, conf_MinFetchSize = 1,
                          conf_MaxFetchSize = 1073741824, conf_StartOffset = 0\<rparr>,
             GetMessageTimeout = 15000000000\<rparr>]\<rparr>)"
  by (simp add: run_defs innerLoop.simps noData_def wideConfig_def wideStart_def)

text \<open>The amended C7 on a round that ends on no data.\<close>

theorem consumeIteration_budget_growth_witness:
  "sint (conf_MaxFetchSize (consumer (hd (deferred
       (snd (consumeIteration (envWith noData) wideConfig queryB 10 wideStart))))))
     = 1073741824
   \<and> endedOnNoData (envWith noData) wideStart
       (snd (consumeIteration (envWith noData) wideConfig queryB 10 wideStart))
   \<and> size' (snd (consumeIteration (envWith noData) wideConfig queryB 10 wideStart))
       = size' wideStart + Consumer_DefaultFetchSize wideConfig"
proof -
  let ?r = "consumeIteration (envWith noData) wideConfig queryB 10 wideStart"
  have r: "?r = (fst ?r, snd ?r)"
    by simp
  have nd: "endedOnNoData (envWith noData) wideStart (snd ?r)"
    by (simp only: wide_round)
      (simp add: endedOnNoData_def wideStart_def initialState_def envWith_def noData_def)
  have big: "\<not> Consumer_MaxFetchSize wideConfig \<le>s size' wideStart"
    by (simp add: wideConfig_def wideStart_def initialState_def word_sle_eq)
  have "sint (conf_MaxFetchSize (consumer (hd (deferred (snd ?r))))) = 1073741824"
    by (simp add: wide_round)
  with consumeIteration_budget_growth [OF r] nd big show ?thesis
    by simp
qed

text \<open>
  C7 as stated fails where the addition wraps: with \<open>MaxFetchSize = 2 ^ 31 - 1\<close>
  and \<open>DefaultFetchSize = 2 ^ 30\<close>, a no data result at \<open>size = 2 ^ 30\<close> makes the
  loop go round again with \<open>size = - 2 ^ 31\<close>, which is less.
\<close>

theorem size_decreases_counterexample:
  "fst (consumeIteration (envWith noData) wideConfig queryB 10 wideStart) = Continue
   \<and> size' wideStart = 1073741824
   \<and> Consumer_DefaultFetchSize wideConfig = 1073741824
   \<and> size' (snd (consumeIteration (envWith noData) wideConfig queryB 10 wideStart))
        = - 2147483648
   \<and> size' (snd (consumeIteration (envWith noData) wideConfig queryB 10 wideStart))
        <s size' wideStart"
  by (simp only: wide_round)
    (simp add: wideStart_def initialState_def wideConfig_def word_sless_alt)

section \<open>Termination of the outer loop\<close>

lemma ConsumeLoop_Suc:
  "consumeIteration env cfg query offsetTo st = (ex, st1) \<Longrightarrow>
     ConsumeLoop (Suc n) env cfg query offsetTo st
       = (if ex = Continue then ConsumeLoop n env cfg query offsetTo st1 else Some (ex, st1))"
  by (cases ex) simp_all

lemma ConsumeLoop_numeral:
  "ConsumeLoop (numeral n) env cfg query offsetTo st
     = (case consumeIteration env cfg query offsetTo st of
          (Continue, st') \<Rightarrow> ConsumeLoop (pred_numeral n) env cfg query offsetTo st'
        | (ex, st') \<Rightarrow> Some (ex, st'))"
  by (simp add: numeral_eq_Suc)

lemma ConsumeLoop_terminates:
  assumes D: "0 < sint (Consumer_DefaultFetchSize cfg)"
    and nowrap: "sint (Consumer_MaxFetchSize cfg) + sint (Consumer_DefaultFetchSize cfg) < 2 ^ 31"
    and resp: "0 <s Consumer_GetMessageTimeout cfg \<or> (\<forall>i. consume env i \<noteq> Elapsed)"
  shows "1 \<le> n \<Longrightarrow>
     sint (Consumer_MaxFetchSize cfg) - sint (size' st)
       \<le> (int n - 1) * sint (Consumer_DefaultFetchSize cfg) \<Longrightarrow>
     \<exists>ex st'. ConsumeLoop n env cfg query offsetTo st = Some (ex, st')
        \<and> (ex = Return \<or> ex = BreakConsumeLoop)
        \<and> opens st < opens st' \<and> opens st' \<le> opens st + n"
proof (induction n arbitrary: st)
  case 0
  then show ?case by simp
next
  case (Suc m)
  obtain ex st1 where it: "consumeIteration env cfg query offsetTo st = (ex, st1)"
    by (cases "consumeIteration env cfg query offsetTo st")
  note s = consumeIteration_summary [OF it]
  show ?case
  proof (cases "ex = Continue")
    case False
    with s(2,3) resp have "ex = Return \<or> ex = BreakConsumeLoop"
      by auto
    moreover from False have "ConsumeLoop (Suc m) env cfg query offsetTo st = Some (ex, st1)"
      by (simp add: ConsumeLoop_Suc [OF it] del: ConsumeLoop.simps)
    ultimately show ?thesis
      using s(1) by simp
  next
    case True
    with s(5,6) have small: "\<not> Consumer_MaxFetchSize cfg \<le>s size' st"
      and grow: "size' st1 = size' st + Consumer_DefaultFetchSize cfg"
      by (auto split: if_splits)
    from small have lt: "sint (size' st) < sint (Consumer_MaxFetchSize cfg)"
      by (simp add: word_sle_eq)
    have "- (2 ^ 31) \<le> sint (size' st)"
      using sint_ge [of "size' st"] by simp
    with D have lo: "- (2 ^ 31) \<le> sint (size' st) + sint (Consumer_DefaultFetchSize cfg)"
      by simp
    have hi: "sint (size' st) + sint (Consumer_DefaultFetchSize cfg) < 2 ^ 31"
      using lt nowrap by simp
    have sz: "sint (size' st1) = sint (size' st) + sint (Consumer_DefaultFetchSize cfg)"
      unfolding grow using lo hi by (rule sint_add_in_range)
    have pos: "0 < int m * sint (Consumer_DefaultFetchSize cfg)"
      using Suc.prems(2) lt by simp
    have m1: "1 \<le> m"
    proof (cases m)
      case 0
      with pos show ?thesis by simp
    next
      case (Suc k)
      then show ?thesis by simp
    qed
    have "sint (Consumer_MaxFetchSize cfg) - sint (size' st1)
            \<le> int m * sint (Consumer_DefaultFetchSize cfg) - sint (Consumer_DefaultFetchSize cfg)"
      using Suc.prems(2) sz by simp
    also have "\<dots> = (int m - 1) * sint (Consumer_DefaultFetchSize cfg)"
      by (simp add: algebra_simps)
    finally have fuel: "sint (Consumer_MaxFetchSize cfg) - sint (size' st1)
            \<le> (int m - 1) * sint (Consumer_DefaultFetchSize cfg)" .
    from Suc.IH [OF m1 fuel]
    obtain ex' st' where r: "ConsumeLoop m env cfg query offsetTo st1 = Some (ex', st')"
      and e: "ex' = Return \<or> ex' = BreakConsumeLoop"
      and o: "opens st1 < opens st'" "opens st' \<le> opens st1 + m"
      by blast
    from r True have "ConsumeLoop (Suc m) env cfg query offsetTo st = Some (ex', st')"
      by (simp add: ConsumeLoop_Suc [OF it] del: ConsumeLoop.simps)
    with e o s(1) show ?thesis
      by simp
  qed
qed

lemma ceiling_bound:
  fixes a d :: int
  assumes "0 < d"
  shows "a \<le> int (nat (- ((- a) div d))) * d"
proof -
  have "(- a) div d * d + (- a) mod d = - a"
    by (rule div_mult_mod_eq)
  moreover have "0 \<le> (- a) mod d"
    using assms by simp
  ultimately have "a \<le> - ((- a) div d * d)"
    by linarith
  then have "a \<le> (- ((- a) div d)) * d"
    by simp
  also have "\<dots> \<le> int (nat (- ((- a) div d))) * d"
    using assms by (simp add: mult_right_mono)
  finally show ?thesis .
qed

lemma ceiling_positive:
  fixes a d :: int
  assumes "0 < d" and "0 < a"
  shows "1 \<le> nat (- ((- a) div d))"
proof -
  have "0 < int (nat (- ((- a) div d))) * d"
    using ceiling_bound [OF assms(1), of a] assms(2) by simp
  then show ?thesis
    by (cases "nat (- ((- a) div d))") simp_all
qed

text \<open>
  C6, as amended. Let \<open>DefaultFetchSize > 0\<close>, let
  \<open>MaxFetchSize + DefaultFetchSize\<close> fit \<open>int32\<close>, let the size hint on entry be
  non-negative, and let every \<open>Consume\<close> return or be cut by an armed timer.
  Then for every count and every stream of answers the outer loop ends
  within \<open>\<lceil>MaxFetchSize / DefaultFetchSize\<rceil> + 1\<close> rounds, and within
  \<open>\<lceil>MaxFetchSize / DefaultFetchSize\<rceil>\<close> rounds when the hint is at least
  \<open>DefaultFetchSize\<close> and \<open>MaxFetchSize > 0\<close>. Running the model with that many
  rounds of fuel returns a result, and no more than that many consumers
  have been asked for.
\<close>

theorem ConsumeLoop_bounded:
  assumes D: "0 <s Consumer_DefaultFetchSize cfg"
    and nowrap: "sint (Consumer_MaxFetchSize cfg) + sint (Consumer_DefaultFetchSize cfg) < 2 ^ 31"
    and hint: "0 \<le>s size' st"
    and resp: "0 <s Consumer_GetMessageTimeout cfg \<or> (\<forall>i. consume env i \<noteq> Elapsed)"
  shows "(\<exists>ex st'. ConsumeLoop (Suc (outerBound cfg)) env cfg query offsetTo st = Some (ex, st')
            \<and> (ex = Return \<or> ex = BreakConsumeLoop)
            \<and> opens st' \<le> opens st + Suc (outerBound cfg))
       \<and> (Consumer_DefaultFetchSize cfg \<le>s size' st \<and> 0 <s Consumer_MaxFetchSize cfg \<longrightarrow>
            (\<exists>ex st'. ConsumeLoop (outerBound cfg) env cfg query offsetTo st = Some (ex, st')
               \<and> (ex = Return \<or> ex = BreakConsumeLoop)
               \<and> opens st' \<le> opens st + outerBound cfg))"
proof -
  let ?d = "sint (Consumer_DefaultFetchSize cfg)"
  let ?M = "sint (Consumer_MaxFetchSize cfg)"
  have d: "0 < ?d"
    using D by (simp add: word_sless_alt)
  have s0: "0 \<le> sint (size' st)"
    using hint by (simp add: word_sle_eq)
  have B: "?M \<le> int (outerBound cfg) * ?d"
    unfolding outerBound_def using d by (rule ceiling_bound)
  have "?M - sint (size' st) \<le> (int (Suc (outerBound cfg)) - 1) * ?d"
    using B s0 by simp
  from ConsumeLoop_terminates [OF d nowrap resp _ this, of query offsetTo]
  have first: "\<exists>ex st'. ConsumeLoop (Suc (outerBound cfg)) env cfg query offsetTo st = Some (ex, st')
            \<and> (ex = Return \<or> ex = BreakConsumeLoop)
            \<and> opens st' \<le> opens st + Suc (outerBound cfg)"
    by auto
  have second: "\<exists>ex st'. ConsumeLoop (outerBound cfg) env cfg query offsetTo st = Some (ex, st')
               \<and> (ex = Return \<or> ex = BreakConsumeLoop)
               \<and> opens st' \<le> opens st + outerBound cfg"
    if big: "Consumer_DefaultFetchSize cfg \<le>s size' st" and M: "0 <s Consumer_MaxFetchSize cfg"
  proof -
    have ds: "?d \<le> sint (size' st)" and M0: "0 < ?M"
      using big M by (simp_all add: word_sle_eq word_sless_alt)
    have one: "1 \<le> outerBound cfg"
      unfolding outerBound_def using d M0 by (rule ceiling_positive)
    have "(int (outerBound cfg) - 1) * ?d = int (outerBound cfg) * ?d - ?d"
      by (simp add: algebra_simps)
    with B ds have "?M - sint (size' st) \<le> (int (outerBound cfg) - 1) * ?d"
      by simp
    from ConsumeLoop_terminates [OF d nowrap resp one this, of query offsetTo]
    show ?thesis by auto
  qed
  from first second show ?thesis by blast
qed

text \<open>
  The amended C6 under the default configuration, with the default hint and a
  broker that never has data.
\<close>

theorem ConsumeLoop_bounded_witness:
  "(\<exists>ex st'. ConsumeLoop (Suc (outerBound defaultConfig)) (envWith noData) defaultConfig queryB 10
                (initialState (clientWith [0]) queryB 1 524288) = Some (ex, st')
            \<and> (ex = Return \<or> ex = BreakConsumeLoop)
            \<and> opens st' \<le> opens (initialState (clientWith [0]) queryB 1 524288)
                            + Suc (outerBound defaultConfig))
   \<and> (\<exists>ex st'. ConsumeLoop (outerBound defaultConfig) (envWith noData) defaultConfig queryB 10
                (initialState (clientWith [0]) queryB 1 524288) = Some (ex, st')
            \<and> (ex = Return \<or> ex = BreakConsumeLoop)
            \<and> opens st' \<le> opens (initialState (clientWith [0]) queryB 1 524288)
                            + outerBound defaultConfig)"
proof -
  have D: "0 <s Consumer_DefaultFetchSize defaultConfig"
    by (simp add: defaultConfig_def word_sless_alt)
  have nowrap: "sint (Consumer_MaxFetchSize defaultConfig)
                  + sint (Consumer_DefaultFetchSize defaultConfig) < 2 ^ 31"
    by (simp add: defaultConfig_def)
  have hint: "0 \<le>s size' (initialState (clientWith [0]) queryB 1 524288)"
    by (simp add: initialState_def word_sle_eq)
  have resp: "0 <s Consumer_GetMessageTimeout defaultConfig
                \<or> (\<forall>i. consume (envWith noData) i \<noteq> Elapsed)"
    by (simp add: defaultConfig_def word_sless_alt)
  have big: "Consumer_DefaultFetchSize defaultConfig
               \<le>s size' (initialState (clientWith [0]) queryB 1 524288)
             \<and> 0 <s Consumer_MaxFetchSize defaultConfig"
    by (simp add: defaultConfig_def initialState_def word_sle_eq word_sless_alt)
  from ConsumeLoop_bounded [OF D nowrap hint resp, of queryB 10] big
  show ?thesis
    by blast
qed

lemma small_run8:
  "ConsumeLoop 8 (envWith noData) defaultConfig queryB 10
     (initialState (clientWith [0]) queryB 1 2) = None"
  by (simp add: ConsumeLoop_numeral run_defs innerLoop.simps noData_def)

lemma small_run9:
  "map_option (\<lambda>r. (fst r, opens (snd r), size' (snd r), successSent (snd r)))
     (ConsumeLoop 9 (envWith noData) defaultConfig queryB 10
       (initialState (clientWith [0]) queryB 1 2))
     = Some (BreakConsumeLoop, 9, 4194306, False)"
  by (simp add: ConsumeLoop_numeral run_defs innerLoop.simps noData_def)

text \<open>
  C6 as stated fails when the stored hint is below \<open>DefaultFetchSize\<close>. Under
  the default configuration the bound is 8; with a hint of 2 bytes and a
  broker that never has data the loop is not over after 8 rounds, and ends
  in the ninth, having asked for nine consumers.
\<close>

theorem small_hint_nine_rounds_counterexample:
  "outerBound defaultConfig = 8
   \<and> readFrom (outerBound defaultConfig) (envWith noData) defaultConfig smallHint
        (clientWith [0]) queryB 1 0 10 = None
   \<and> map_option newConsumerCalls
        (readFrom 9 (envWith noData) defaultConfig smallHint (clientWith [0]) queryB 1 0 10)
       = Some 9
   \<and> map_option how
        (readFrom 9 (envWith noData) defaultConfig smallHint (clientWith [0]) queryB 1 0 10)
       = Some Return"
proof -
  have b: "outerBound defaultConfig = 8"
    by (simp add: outerBound_def defaultConfig_def)
  have g: "Get smallHint (Topic queryB) (Consumer_DefaultFetchSize defaultConfig) = 2"
    by (simp add: Get_def smallHint_def queryB_def)
  have r: "\<not> (Offset queryB <s 0 \<or> (10 :: int64) \<le>s Offset queryB)"
    by (simp add: queryB_def word_sle_eq)
  obtain st' where 9: "ConsumeLoop 9 (envWith noData) defaultConfig queryB 10
       (initialState (clientWith [0]) queryB 1 2) = Some (BreakConsumeLoop, st')"
    and o: "opens st' = 9"
    using small_run9 by auto
  show ?thesis
    using r by (simp add: b readFrom_def [of _ "envWith noData"] g small_run8 9 o)
qed

section \<open>Errors in the inner loop\<close>

lemma innerBody_error:
  assumes "connIsAlive env (reads st)" and "opened c"
    and "consume env (reads st) = Completed (Inl err)" and "err \<noteq> KafkaErrNoData"
  shows "fst (innerBody env query offsetTo c st) = Return
    \<and> written (snd (snd (innerBody env query offsetTo c st)))
        = written st @ (if successSent st then []
                        else [ErrorResponse (httpStatusError err)
                                ''Unable to get message: %v'' (Some err)])"
  using assms by (simp add: body_defs)

lemma oneThenError_run:
  "readFrom 1 (envWith oneThenError) defaultConfig Map.empty (clientWith [0]) queryB 2 0 10
     = Some \<lparr>how = Return, response = envelopeOpen queryB @ [WriteValue ''{}''],
             clientAfter = clientWith [0], hintsAfter = Map.empty, newConsumerCalls = 1\<rparr>"
  by (simp add: run_defs innerLoop.simps oneThenError_def)

text \<open>
  C5. An error other than no data before the first message gives an error
  response (\<open>innerBody_error\<close>). After a message has been written the handler
  returns at once: for a request of two messages where the first \<open>Consume\<close>
  returns a message and the second a transport error, the response ends
  with the message. The closing \<open>]}\<close> is never written and
  \<open>endResponseSuccess\<close> is not called, so the array and the envelope stay
  open; no error status is written.
\<close>

theorem error_after_message_leaves_envelope_open:
  "readFrom 1 (envWith oneThenError) defaultConfig Map.empty (clientWith [0]) queryB 2 0 10
     = Some \<lparr>how = Return, response = envelopeOpen queryB @ [WriteValue ''{}''],
             clientAfter = clientWith [0], hintsAfter = Map.empty, newConsumerCalls = 1\<rparr>
   \<and> Write '']}'' \<notin> set (envelopeOpen queryB @ [WriteValue ''{}''])
   \<and> EndResponseSuccess \<notin> set (envelopeOpen queryB @ [WriteValue ''{}''])"
  by (simp only: oneThenError_run) (simp add: envelopeOpen_def)

section \<open>Range check\<close>

lemma ConsumeLoop_written:
  "ConsumeLoop n env cfg query offsetTo st = Some (ex, st') \<Longrightarrow>
     (\<exists>ws. written st' = written st @ ws \<and> (\<forall>e \<in> set ws. \<not> isOutOfRange e))
     \<and> opens st < opens st'"
proof (induction n arbitrary: st)
  case 0
  then show ?case by simp
next
  case (Suc m)
  obtain ex1 st1 where it: "consumeIteration env cfg query offsetTo st = (ex1, st1)"
    by (cases "consumeIteration env cfg query offsetTo st")
  note s = consumeIteration_summary [OF it]
  from s(4) obtain ws where ws: "written st1 = written st @ ws" "\<forall>e \<in> set ws. \<not> isOutOfRange e"
    by blast
  show ?case
  proof (cases "ex1 = Continue")
    case False
    with Suc.prems have "st' = st1"
      by (simp add: ConsumeLoop_Suc [OF it] del: ConsumeLoop.simps)
    with ws s(1) show ?thesis
      by auto
  next
    case True
    with Suc.prems have "ConsumeLoop m env cfg query offsetTo st1 = Some (ex, st')"
      by (simp add: ConsumeLoop_Suc [OF it] del: ConsumeLoop.simps)
    from Suc.IH [OF this] obtain vs where "written st' = written st1 @ vs"
      "\<forall>e \<in> set vs. \<not> isOutOfRange e" "opens st1 < opens st'"
      by blast
    with ws s(1) have "written st' = written st @ (ws @ vs)
        \<and> (\<forall>e \<in> set (ws @ vs). \<not> isOutOfRange e) \<and> opens st < opens st'"
      by auto
    then show ?thesis
      by blast
  qed
qed

text \<open>
  C4. With the start offset resolved and the bounds fetched, the handler
  answers with the out-of-range error, asks for no consumer and leaves the
  pool as it is when \<open>offset < offsetFrom\<close> or \<open>offset \<ge> offsetTo\<close>; otherwise
  no out-of-range error is part of the response, and a consumer is asked
  for.
\<close>

theorem readFrom_range:
  "((Offset query <s offsetFrom \<or> offsetTo \<le>s Offset query) \<longrightarrow>
      readFrom fuel env cfg h k query len offsetFrom offsetTo
        = Some \<lparr>how = Return,
                response = [ErrorOutOfRange (Topic query) (Partition query) offsetFrom offsetTo],
                clientAfter = k, hintsAfter = h, newConsumerCalls = 0\<rparr>)
   \<and> (\<not> (Offset query <s offsetFrom \<or> offsetTo \<le>s Offset query) \<longrightarrow>
        (\<forall>r. readFrom fuel env cfg h k query len offsetFrom offsetTo = Some r \<longrightarrow>
           (\<forall>e \<in> set (response r). \<not> isOutOfRange e) \<and> 0 < newConsumerCalls r))"
proof -
  let ?st0 = "initialState k query len (Get h (Topic query) (Consumer_DefaultFetchSize cfg))"
  have e: "\<forall>e \<in> set (envelopeOpen query @ [Write '']}'', EndResponseSuccess]).
             \<not> isOutOfRange e"
    by (simp add: envelopeOpen_def isOutOfRange_def)
  have inside: "(\<forall>e \<in> set (response r). \<not> isOutOfRange e) \<and> 0 < newConsumerCalls r"
    if inr: "\<not> (Offset query <s offsetFrom \<or> offsetTo \<le>s Offset query)"
      and r: "readFrom fuel env cfg h k query len offsetFrom offsetTo = Some r" for r
  proof -
    from inr r obtain ex st' where l: "ConsumeLoop fuel env cfg query offsetTo ?st0 = Some (ex, st')"
      by (auto simp add: readFrom_def split: option.splits)
    from ConsumeLoop_written [OF l]
    have w: "\<forall>e \<in> set (written st'). \<not> isOutOfRange e" and o: "0 < opens st'"
      by (auto simp add: initialState_def)
    from inr r l have "set (response r)
          \<subseteq> set (written st') \<union> set (envelopeOpen query @ [Write '']}'', EndResponseSuccess])
        \<and> newConsumerCalls r = opens st'"
      by (cases ex) (auto simp add: readFrom_def)
    with w e o show ?thesis
      by auto
  qed
  have outside: "readFrom fuel env cfg h k query len offsetFrom offsetTo
        = Some \<lparr>how = Return,
                response = [ErrorOutOfRange (Topic query) (Partition query) offsetFrom offsetTo],
                clientAfter = k, hintsAfter = h, newConsumerCalls = 0\<rparr>"
    if "Offset query <s offsetFrom \<or> offsetTo \<le>s Offset query"
    using that by (simp add: readFrom_def)
  from inside outside show ?thesis
    by blast
qed

text \<open>C4 at an offset beyond the end and at one inside the bounds.\<close>

theorem readFrom_range_witness:
  "readFrom 1 (envWith oneThenError) defaultConfig Map.empty (clientWith [0])
      (queryB\<lparr>Offset := 999\<rparr>) 1 0 1
     = Some \<lparr>how = Return, response = [ErrorOutOfRange ''b'' 0 0 1],
             clientAfter = clientWith [0], hintsAfter = Map.empty, newConsumerCalls = 0\<rparr>
   \<and> list_all (\<lambda>e. \<not> isOutOfRange e)
        (response (the (readFrom 1 (envWith oneThenError) defaultConfig Map.empty
                          (clientWith [0]) queryB 2 0 10)))
   \<and> 0 < newConsumerCalls (the (readFrom 1 (envWith oneThenError) defaultConfig Map.empty
                          (clientWith [0]) queryB 2 0 10))"
proof -
  have out: "Offset (queryB\<lparr>Offset := 999\<rparr>) <s 0 \<or> (1 :: int64) \<le>s Offset (queryB\<lparr>Offset := 999\<rparr>)"
    by (simp add: word_sle_eq)
  have inr: "\<not> (Offset queryB <s 0 \<or> (10 :: int64) \<le>s Offset queryB)"
    by (simp add: queryB_def word_sle_eq word_sless_alt)
  have some: "readFrom 1 (envWith oneThenError) defaultConfig Map.empty (clientWith [0])
                queryB 2 0 10
     = Some (the (readFrom 1 (envWith oneThenError) defaultConfig Map.empty (clientWith [0])
                queryB 2 0 10))"
    using oneThenError_run by simp
  from readFrom_range [of "queryB\<lparr>Offset := 999\<rparr>" 0 1 1 "envWith oneThenError" defaultConfig
      Map.empty "clientWith [0]" 1] out
  have 1: "readFrom 1 (envWith oneThenError) defaultConfig Map.empty (clientWith [0])
      (queryB\<lparr>Offset := 999\<rparr>) 1 0 1
     = Some \<lparr>how = Return, response = [ErrorOutOfRange ''b'' 0 0 1],
             clientAfter = clientWith [0], hintsAfter = Map.empty, newConsumerCalls = 0\<rparr>"
    by (simp add: queryB_def word_sle_eq word_sless_alt)
  from readFrom_range [of queryB 0 10 1 "envWith oneThenError" defaultConfig
      Map.empty "clientWith [0]" 2] inr some
  have 2: "(\<forall>e \<in> set (response (the (readFrom 1 (envWith oneThenError) defaultConfig Map.empty
                          (clientWith [0]) queryB 2 0 10))). \<not> isOutOfRange e)
    \<and> 0 < newConsumerCalls (the (readFrom 1 (envWith oneThenError) defaultConfig Map.empty
                          (clientWith [0]) queryB 2 0 10))"
    by blast
  from 1 2 show ?thesis
    by (simp add: list_all_iff)
qed

section \<open>The default limit\<close>











end
